theory Spec2Isabelle
  imports Main "HOL-Library.AList"
begin

section \<open>Python values, exceptions and built-ins\<close>

text \<open>
  The client (\<^verbatim>\<open>olclient/openlibrary.py\<close>) is Python 2. A value it receives from a
  parsed JSON body is \<^verbatim>\<open>None\<close>, a boolean, an integer, a string, a list or a
  dictionary with string keys; JSON floats are left out (the code does no arithmetic on
  what it receives). A dictionary is an association list whose keys are pairwise
  distinct; \<open>map_of\<close> reads it, \<open>AList.update\<close> stores into it, \<open>AList.delete\<close>
  removes a key. \<open>PAuthor n o\<close> stands for the object built by the call
  \<^verbatim>\<open>Author(name=n, olid=o)\<close>: the class lives in \<^verbatim>\<open>olclient/book.py\<close>, so the
  object is represented by the arguments of its constructor.

  Strings are byte strings and \<^verbatim>\<open>lower\<close>, \<^verbatim>\<open>strip\<close> act on ASCII, as
  Python 2's \<^verbatim>\<open>str\<close> does; the Unicode tables of \<^verbatim>\<open>unicode.lower\<close> are not
  modelled.
\<close>

datatype pyval =
    PNone
  | PBool bool
  | PInt int
  | PStr string
  | PList "pyval list"
  | PDict "(string \<times> pyval) list"
  | PAuthor pyval pyval

text \<open>
  Every \<^verbatim>\<open>raise\<close> is a value. \<open>RequestException\<close> carries a message so that the
  errors of successive attempts can be told apart. \<open>NoCookieSet\<close> is
  \<^verbatim>\<open>Exception("No cookie set")\<close>. \<open>ReError\<close> is not raised by the model of any
  call the client makes itself: it marks a pattern outside the fragment of regular
  expressions that \<open>compile_label\<close> below covers.
\<close>

datatype error =
    RequestException string
  | ValueError
  | TypeError
  | KeyError
  | IndexError
  | AttributeError
  | NoCookieSet
  | ReError

fun ebind :: "error + 'a \<Rightarrow> ('a \<Rightarrow> error + 'b) \<Rightarrow> error + 'b" where
  "ebind (Inl e) f = Inl e"
| "ebind (Inr x) f = f x"

text \<open>Truth value of an object (\<^verbatim>\<open>if v:\<close>, \<^verbatim>\<open>v or d\<close>).\<close>

fun py_truthy :: "pyval \<Rightarrow> bool" where
  "py_truthy PNone = False"
| "py_truthy (PBool b) = b"
| "py_truthy (PInt i) = (i \<noteq> 0)"
| "py_truthy (PStr s) = (s \<noteq> [])"
| "py_truthy (PList xs) = (xs \<noteq> [])"
| "py_truthy (PDict d) = (d \<noteq> [])"
| "py_truthy (PAuthor n ol) = True"

definition py_or :: "pyval \<Rightarrow> pyval \<Rightarrow> pyval" where
  "py_or v d = (if py_truthy v then v else d)"

text \<open>Iteration (\<^verbatim>\<open>for x in v\<close>, \<^verbatim>\<open>zip\<close>): a dictionary yields its keys, a string
  its characters, anything else that is not a list raises \<^verbatim>\<open>TypeError\<close>.\<close>

fun py_iter :: "pyval \<Rightarrow> error + pyval list" where
  "py_iter (PList xs) = Inr xs"
| "py_iter (PDict d) = Inr (map (\<lambda>kv. PStr (fst kv)) d)"
| "py_iter (PStr s) = Inr (map (\<lambda>c. PStr [c]) s)"
| "py_iter v = Inl TypeError"

text \<open>Subscription with a string key, \<^verbatim>\<open>v['k']\<close>.\<close>

fun py_getitem :: "pyval \<Rightarrow> string \<Rightarrow> error + pyval" where
  "py_getitem (PDict d) k = (case map_of d k of None \<Rightarrow> Inl KeyError | Some v \<Rightarrow> Inr v)"
| "py_getitem v k = Inl TypeError"

text \<open>\<^verbatim>\<open>v[0]\<close>. A dictionary of this model has string keys only, so \<open>0\<close> is never
  one of them.\<close>

fun py_index0 :: "pyval \<Rightarrow> error + pyval" where
  "py_index0 (PList []) = Inl IndexError"
| "py_index0 (PList (x # xs)) = Inr x"
| "py_index0 (PStr []) = Inl IndexError"
| "py_index0 (PStr (c # cs)) = Inr (PStr [c])"
| "py_index0 (PDict d) = Inl KeyError"
| "py_index0 v = Inl TypeError"


text \<open>\<^verbatim>\<open>k in v\<close> for a string \<open>k\<close>: key membership in a dictionary, element
  membership in a list, substring test in a string.\<close>

fun py_substring :: "string \<Rightarrow> string \<Rightarrow> bool" where
  "py_substring k [] = (k = [])"
| "py_substring k (c # cs) = (take (length k) (c # cs) = k \<or> py_substring k cs)"

fun py_contains :: "string \<Rightarrow> pyval \<Rightarrow> error + bool" where
  "py_contains k (PDict d) = Inr (map_of d k \<noteq> None)"
| "py_contains k (PList xs) = Inr (PStr k \<in> set xs)"
| "py_contains k (PStr s) = Inr (py_substring k s)"
| "py_contains k v = Inl TypeError"

subsection \<open>Strings\<close>

definition lower_char :: "char \<Rightarrow> char" where
  "lower_char c =
     (case map_of (zip ''ABCDEFGHIJKLMNOPQRSTUVWXYZ'' ''abcdefghijklmnopqrstuvwxyz'') c of
        None \<Rightarrow> c | Some d \<Rightarrow> d)"

definition py_lower :: "string \<Rightarrow> string" where
  "py_lower s = map lower_char s"

definition whitespace :: "char \<Rightarrow> bool" where
  "whitespace c = (c \<in> set [CHR 0x09, CHR 0x0A, CHR 0x0B, CHR 0x0C, CHR 0x0D, CHR 0x20])"

definition py_strip :: "string \<Rightarrow> string" where
  "py_strip s = rev (dropWhile whitespace (rev (dropWhile whitespace s)))"

text \<open>\<^verbatim>\<open>v.lower().strip()\<close>: an object that is not a string has no \<^verbatim>\<open>lower\<close>.\<close>

fun lower_strip :: "pyval \<Rightarrow> error + string" where
  "lower_strip (PStr s) = Inr (py_strip (py_lower s))"
| "lower_strip v = Inl AttributeError"

text \<open>\<^verbatim>\<open>s.split(c)\<close> never returns the empty list, so \<^verbatim>\<open>[-1]\<close> is its last
  element.\<close>

fun py_split :: "char \<Rightarrow> string \<Rightarrow> string list" where
  "py_split c [] = [[]]"
| "py_split c (x # xs) =
     (if x = c then [] # py_split c xs
      else (case py_split c xs of [] \<Rightarrow> [[x]] | y # ys \<Rightarrow> (x # y) # ys))"

fun split_last :: "pyval \<Rightarrow> error + string" where
  "split_last (PStr s) = Inr (last (py_split CHR ''/'' s))"
| "split_last v = Inl AttributeError"

text \<open>\<^verbatim>\<open>'%s' % i\<close> for an integer: its decimal digits.\<close>

fun str_nat :: "nat \<Rightarrow> string" where
  "str_nat n =
     (if n < 10 then [''0123456789'' ! n] else str_nat (n div 10) @ [''0123456789'' ! (n mod 10)])"

declare str_nat.simps [simp del]

definition str_int :: "int \<Rightarrow> string" where
  "str_int i = (if i < 0 then CHR ''-'' # str_nat (nat (- i)) else str_nat (nat i))"

section \<open>The identifier extractor\<close>

text \<open>
  \<^verbatim>\<open>_extract_olid_from_url(url, url_type)\<close> builds the pattern
  \<^verbatim>\<open>'[/]%s[/]([0-9a-zA-Z]+)' % url_type\<close> and returns group 1 of the leftmost match
  of \<^verbatim>\<open>re.search\<close>, or \<^verbatim>\<open>None\<close> when \<^verbatim>\<open>re.search\<close> finds nothing (the
  \<^verbatim>\<open>AttributeError\<close> of \<^verbatim>\<open>None.group\<close> is caught). The label is pasted into the
  pattern as it is, so the regular-expression library reads it as pattern text. The
  characters with a special meaning there are those of \<^verbatim>\<open>sre_parse.SPECIAL_CHARS\<close>,
  \<^verbatim>\<open>. \ [ { ( ) * + ? ^ $ |\<close>; every other character stands for itself.
  \<open>compile_label\<close> covers the labels made of characters that stand for themselves
  and of the dot, which stands for any character but a newline; every caller in the
  file passes \<^verbatim>\<open>"books"\<close>, \<^verbatim>\<open>"authors"\<close> or \<^verbatim>\<open>"works"\<close>. A label with another
  special character is outside this fragment (\<open>ReError\<close>); no theorem below says
  what the code does there.
\<close>

datatype atom = Lit char | AnyChar

definition re_special :: "char \<Rightarrow> bool" where
  "re_special c = (c \<in> set (CHR 0x5C # ''.[{()*+?^$|''))"

fun compile_label :: "string \<Rightarrow> error + atom list" where
  "compile_label [] = Inr []"
| "compile_label (c # cs) =
     (if c = CHR ''.'' then ebind (compile_label cs) (\<lambda>as. Inr (AnyChar # as))
      else if re_special c then Inl ReError
      else ebind (compile_label cs) (\<lambda>as. Inr (Lit c # as)))"

definition alnum :: "char \<Rightarrow> bool" where
  "alnum c =
     (c \<in> set ''0123456789abcdefghijklmnopqrstuvwxyzABCDEFGHIJKLMNOPQRSTUVWXYZ'')"

text \<open>The atoms of the label against the head of the subject; the result is what
  follows the part they match.\<close>

fun match_atoms :: "atom list \<Rightarrow> string \<Rightarrow> string option" where
  "match_atoms [] s = Some s"
| "match_atoms (a # as) [] = None"
| "match_atoms (Lit c # as) (x # xs) = (if x = c then match_atoms as xs else None)"
| "match_atoms (AnyChar # as) (x # xs) = (if x \<noteq> CHR 0x0A then match_atoms as xs else None)"

text \<open>The whole pattern anchored at the head of the subject: a slash, the label, a
  slash, and the longest non-empty run of alphanumerics (the group).\<close>

definition match_here :: "atom list \<Rightarrow> string \<Rightarrow> string option" where
  "match_here as s =
     (case s of
        [] \<Rightarrow> None
      | x # xs \<Rightarrow>
          if x \<noteq> CHR ''/'' then None
          else (case match_atoms as xs of
                  None \<Rightarrow> None
                | Some [] \<Rightarrow> None
                | Some (y # ys) \<Rightarrow>
                    if y \<noteq> CHR ''/'' then None
                    else if takeWhile alnum ys = [] then None
                    else Some (takeWhile alnum ys)))"

text \<open>\<^verbatim>\<open>re.search\<close>: the match at the leftmost position that has one.\<close>

fun re_search :: "atom list \<Rightarrow> string \<Rightarrow> string option" where
  "re_search as [] = match_here as []"
| "re_search as (x # xs) =
     (case match_here as (x # xs) of Some g \<Rightarrow> Some g | None \<Rightarrow> re_search as xs)"

text \<open>\<^verbatim>\<open>re.search\<close> raises \<^verbatim>\<open>TypeError\<close> on a subject that is not a string; the
  function catches \<^verbatim>\<open>AttributeError\<close> only.\<close>

fun extract_olid_from_url :: "pyval \<Rightarrow> string \<Rightarrow> error + pyval" where
  "extract_olid_from_url (PStr url) url_type =
     ebind (compile_label url_type)
       (\<lambda>as. case re_search as url of None \<Rightarrow> Inr PNone | Some g \<Rightarrow> Inr (PStr g))"
| "extract_olid_from_url v url_type = ebind (compile_label url_type) (\<lambda>as. Inl TypeError)"

section \<open>Requests, responses and the retry policy\<close>

text \<open>
  A request records whether it goes through the client's session
  (\<^verbatim>\<open>self.session.get\<close>, \<^verbatim>\<open>self.session.post\<close>) or not (\<^verbatim>\<open>requests.get\<close>), its
  method, URL, headers and form data. Of a response the client reads the headers, the
  body through \<^verbatim>\<open>response.json()\<close> and the final URL; \<open>resp_json = None\<close> is a body
  that is not JSON.
\<close>

datatype http_method = GET | POST

record request =
  req_session :: bool
  req_method :: http_method
  req_url :: string
  req_headers :: "(string \<times> string) list"
  req_data :: pyval

record response =
  resp_headers :: "(string \<times> string) list"
  resp_json :: "pyval option"
  resp_url :: string

text \<open>
  The world outside the client: \<open>sent\<close> lists the requests issued so far, \<open>gaveup\<close>
  the errors handed to an \<^verbatim>\<open>on_giveup\<close> callback (each callback of the file logs the
  error with \<^verbatim>\<open>logger.exception\<close>). The server is a function from the number of
  requests already issued and the request to the outcome of the transport.
\<close>

record world =
  sent :: "request list"
  gaveup :: "error list"

type_synonym network = "nat \<Rightarrow> request \<Rightarrow> error + response"

definition send :: "network \<Rightarrow> request \<Rightarrow> world \<Rightarrow> (error + response) \<times> world" where
  "send net r w = (net (length (sent w)) r, w\<lparr>sent := sent w @ [r]\<rparr>)"

text \<open>\<^verbatim>\<open>get(url)\<close> and \<^verbatim>\<open>post(url, data=data, headers=headers)\<close>, through the
  session or not.\<close>

definition http_get :: "bool \<Rightarrow> string \<Rightarrow> request" where
  "http_get session url =
     \<lparr>req_session = session, req_method = GET, req_url = url, req_headers = [],
      req_data = PNone\<rparr>"

definition http_post :: "bool \<Rightarrow> string \<Rightarrow> (string \<times> string) list \<Rightarrow> pyval \<Rightarrow> request" where
  "http_post session url hdrs data =
     \<lparr>req_session = session, req_method = POST, req_url = url, req_headers = hdrs,
      req_data = data\<rparr>"

text \<open>\<^verbatim>\<open>response.json()\<close> raises \<^verbatim>\<open>ValueError\<close> on a body that is not JSON.\<close>

definition response_json :: "response \<Rightarrow> error + pyval" where
  "response_json r = (case resp_json r of None \<Rightarrow> Inl ValueError | Some v \<Rightarrow> Inr v)"

text \<open>\<^verbatim>\<open>BACKOFF_KWARGS\<close>: the retried family is \<^verbatim>\<open>requests.exceptions.RequestException\<close>,
  \<^verbatim>\<open>max_tries\<close> is 5.\<close>

definition max_tries :: nat where
  "max_tries = 5"

fun retriable :: "error \<Rightarrow> bool" where
  "retriable (RequestException m) = True"
| "retriable e = False"

text \<open>
  Modelled from the spec: the loop of \<^verbatim>\<open>backoff.on_exception\<close>, which is a library
  outside the repository. Section 4.1 of the specification: invoke the operation; on
  an error of the retriable family try again, up to the maximum number of attempts; on
  the final failure invoke the failure callback and propagate the last error; an error
  outside the family propagates at once. \<open>attempts r op\<close> runs the operation with
  \<open>r\<close> further attempts allowed after this one. The delays between attempts
  (\<^verbatim>\<open>backoff.expo\<close> with random jitter) are real time and are not modelled.
\<close>

primrec attempts :: "nat \<Rightarrow> (world \<Rightarrow> (error + 'a) \<times> world) \<Rightarrow> world \<Rightarrow> (error + 'a) \<times> world" where
  "attempts 0 op w =
     (case op w of
        (Inr v, w') \<Rightarrow> (Inr v, w')
      | (Inl e, w') \<Rightarrow>
          if retriable e then (Inl e, w'\<lparr>gaveup := gaveup w' @ [e]\<rparr>) else (Inl e, w'))"
| "attempts (Suc r) op w =
     (case op w of
        (Inr v, w') \<Rightarrow> (Inr v, w')
      | (Inl e, w') \<Rightarrow> if retriable e then attempts r op w' else (Inl e, w'))"

definition on_exception :: "(world \<Rightarrow> (error + 'a) \<times> world) \<Rightarrow> world \<Rightarrow> (error + 'a) \<times> world" where
  "on_exception op w = attempts (max_tries - 1) op w"

section \<open>The client\<close>

text \<open>In every function below \<open>net\<close> is the server and \<open>base_url\<close> is
  \<^verbatim>\<open>self.base_url\<close>.\<close>

subsection \<open>login\<close>

text \<open>\<^verbatim>\<open>response.headers\<close> is case-insensitive in its keys. The body of the request
  is \<^verbatim>\<open>json.dumps(credentials._asdict())\<close>; the model carries the dictionary.\<close>

definition login :: "network \<Rightarrow> string \<Rightarrow> (string \<times> pyval) list \<Rightarrow> world \<Rightarrow> (error + unit) \<times> world" where
  "login net base_url credentials w =
     (case on_exception
             (send net (http_post True (base_url @ ''/account/login'')
                          [(''Content-Type'', ''application/json'')] (PDict credentials))) w of
        (Inl e, w') \<Rightarrow> (Inl e, w')
      | (Inr response, w') \<Rightarrow>
          if py_lower ''Set-Cookie'' \<in> set (map (\<lambda>kv. py_lower (fst kv)) (resp_headers response))
          then (Inr (), w')
          else (Inl NoCookieSet, w'))"

subsection \<open>Author lookup\<close>

definition get_matching_authors_by_name ::
    "network \<Rightarrow> string \<Rightarrow> string \<Rightarrow> int \<Rightarrow> world \<Rightarrow> (error + pyval) \<times> world" where
  "get_matching_authors_by_name net base_url nm limit w =
     (if nm \<noteq> [] then
        (case on_exception
                (send net (http_get True (base_url @ ''/authors/_autocomplete?q='' @ nm
                                            @ ''&limit='' @ str_int limit))) w of
           (Inl e, w') \<Rightarrow> (Inl e, w')
         | (Inr response, w') \<Rightarrow> (response_json response, w'))
      else (Inr (PList []), w))"

text \<open>The loop of \<^verbatim>\<open>get_matching_authors_olid\<close> over the candidates: it returns at
  the first candidate whose normalized name equals the normalized query.\<close>

fun match_loop :: "string \<Rightarrow> pyval list \<Rightarrow> error + string option" where
  "match_loop n [] = Inr None"
| "match_loop n (author # authors) =
     ebind (py_getitem author ''name'') (\<lambda>a.
     ebind (lower_strip a) (\<lambda>a'.
       if n = a' then
         ebind (py_getitem author ''key'') (\<lambda>k.
         ebind (split_last k) (\<lambda>s. Inr (Some s)))
       else match_loop n authors))"

definition get_matching_authors_olid ::
    "network \<Rightarrow> string \<Rightarrow> string \<Rightarrow> world \<Rightarrow> (error + string option) \<times> world" where
  "get_matching_authors_olid net base_url nm w =
     (case get_matching_authors_by_name net base_url nm 1 w of
        (Inl e, w') \<Rightarrow> (Inl e, w')
      | (Inr authors, w') \<Rightarrow>
          (ebind (py_iter authors) (match_loop (py_strip (py_lower nm))), w'))"

subsection \<open>Book creation\<close>

text \<open>
  Of the book handed to \<^verbatim>\<open>create_book\<close> the code reads the attributes
  \<^verbatim>\<open>identifiers\<close>, \<^verbatim>\<open>primary_author\<close> (an \<^verbatim>\<open>Author\<close> or \<^verbatim>\<open>None\<close>; of an
  author only \<^verbatim>\<open>name\<close>), \<^verbatim>\<open>title\<close>, \<^verbatim>\<open>publish_date\<close> and \<^verbatim>\<open>publisher\<close>.
  The classes are in \<^verbatim>\<open>olclient/book.py\<close>; the records hold those attributes, an
  author's name being a string and the identifiers a dictionary.
\<close>

record author =
  name :: string
  olid :: pyval

record book =
  title :: pyval
  publisher :: pyval
  publish_date :: pyval
  identifiers :: "(string \<times> pyval) list"
  primary_author :: "author option"

definition VALID_IDS :: "string list" where
  "VALID_IDS = [''isbn_10'', ''isbn_13'', ''lccn'']"

text \<open>The \<^verbatim>\<open>for\<close> loop of \<^verbatim>\<open>get_primary_identifier\<close>: it stops at the first kind
  that is a key of the mapping and takes element 0 of that kind's value.\<close>

fun first_valid :: "string list \<Rightarrow> (string \<times> pyval) list \<Rightarrow> error + (string \<times> pyval) option" where
  "first_valid [] ids = Inr None"
| "first_valid (valid_key # ks) ids =
     (case map_of ids valid_key of
        Some v \<Rightarrow> ebind (py_index0 v) (\<lambda>x. Inr (Some (valid_key, x)))
      | None \<Rightarrow> first_valid ks ids)"

definition get_primary_identifier :: "book \<Rightarrow> error + (string \<times> pyval)" where
  "get_primary_identifier b =
     ebind (first_valid VALID_IDS (identifiers b)) (\<lambda>r.
       case r of
         None \<Rightarrow> Inl ValueError
       | Some (id_name, id_value) \<Rightarrow>
           if id_name \<noteq> [] \<and> py_truthy id_value then Inr (id_name, id_value)
           else Inl ValueError)"

text \<open>\<^verbatim>\<open>create_book\<close> returns the payload when \<^verbatim>\<open>debug\<close> is set and otherwise what
  the extractor finds in the URL of the response.\<close>

datatype created = Payload "(string \<times> pyval) list" | Created pyval

definition create_book_impl ::
    "network \<Rightarrow> string \<Rightarrow> pyval \<Rightarrow> string \<Rightarrow> string \<Rightarrow> pyval \<Rightarrow> pyval \<Rightarrow> string \<Rightarrow> pyval \<Rightarrow> bool
      \<Rightarrow> world \<Rightarrow> (error + created) \<times> world" where
  "create_book_impl net base_url ttl author_name author_key pdate pub id_name id_value debug w =
     (if id_name \<notin> set VALID_IDS then (Inl ValueError, w)
      else
        let data = [(''title'', ttl), (''author_name'', PStr author_name),
                    (''author_key'', PStr author_key), (''publish_date'', pdate),
                    (''publisher'', pub), (''id_name'', PStr id_name),
                    (''id_value'', id_value), (''_save'', PStr [])]
        in if debug then (Inr (Payload data), w)
           else
             (case on_exception
                     (send net (http_post True (base_url @ ''/books/add'') [] (PDict data)))
                     w of
                (Inl e, w') \<Rightarrow> (Inl e, w')
              | (Inr response, w') \<Rightarrow>
                  (ebind (extract_olid_from_url (PStr (resp_url response)) ''books'')
                     (\<lambda>v. Inr (Created v)), w')))"

definition create_book :: "network \<Rightarrow> string \<Rightarrow> book \<Rightarrow> bool \<Rightarrow> world \<Rightarrow> (error + created) \<times> world" where
  "create_book net base_url b debug w =
     (case get_primary_identifier b of
        Inl e \<Rightarrow> (Inl e, w)
      | Inr (id_name, id_value) \<Rightarrow>
          let author_name = (case primary_author b of None \<Rightarrow> [] | Some a \<Rightarrow> name a)
          in (case get_matching_authors_olid net base_url author_name w of
                (Inl e, w') \<Rightarrow> (Inl e, w')
              | (Inr author_olid, w') \<Rightarrow>
                  let author_key =
                        (case author_olid of
                           None \<Rightarrow> ''__new__''
                         | Some s \<Rightarrow> if s \<noteq> [] then ''/authors/'' @ s else ''__new__'')
                  in create_book_impl net base_url (title b) author_name author_key
                       (publish_date b) (publisher b) id_name id_value debug w'))"

subsection \<open>Search results\<close>

text \<open>A call \<^verbatim>\<open>f(**d)\<close> binds the entries of the dictionary to the parameters of
  \<open>f\<close>; a parameter the dictionary lacks takes its default, and an entry named
  \<^verbatim>\<open>self\<close> collides with the receiver (\<^verbatim>\<open>TypeError\<close>).\<close>

definition kwarg :: "(string \<times> pyval) list \<Rightarrow> string \<Rightarrow> pyval \<Rightarrow> pyval" where
  "kwarg kw k dflt = (case map_of kw k of None \<Rightarrow> dflt | Some v \<Rightarrow> v)"

record document =
  doc_title :: pyval
  doc_subtitle :: pyval
  doc_subjects :: pyval
  doc_authors :: "pyval list"
  doc_publishers :: pyval
  doc_publish_dates :: pyval
  doc_publish_places :: pyval
  doc_first_publish_year :: pyval
  doc_edition_olids :: pyval
  doc_language :: pyval
  doc_identifiers :: "(string \<times> pyval) list"

text \<open>\<^verbatim>\<open>Results.Document.__init__\<close>, called as \<^verbatim>\<open>Document(**doc)\<close>: \<^verbatim>\<open>key\<close> is
  the one parameter without a default.\<close>

definition Document_init :: "(string \<times> pyval) list \<Rightarrow> error + document" where
  "Document_init kw =
     (if map_of kw ''self'' \<noteq> None then Inl TypeError
      else
        (case map_of kw ''key'' of
           None \<Rightarrow> Inl TypeError
         | Some key \<Rightarrow>
             ebind (extract_olid_from_url key ''works'') (\<lambda>work_olid.
             ebind (py_iter (py_or (kwarg kw ''author_name'' (PStr [])) (PList []))) (\<lambda>names.
             ebind (py_iter (py_or (kwarg kw ''author_key'' PNone) (PList []))) (\<lambda>keys.
               Inr \<lparr>doc_title = kwarg kw ''title'' (PStr []),
                    doc_subtitle = kwarg kw ''subtitle'' PNone,
                    doc_subjects = kwarg kw ''subject'' PNone,
                    doc_authors = map (\<lambda>p. PAuthor (fst p) (snd p)) (zip names keys),
                    doc_publishers = kwarg kw ''publisher'' PNone,
                    doc_publish_dates = kwarg kw ''publish_date'' PNone,
                    doc_publish_places = kwarg kw ''publish_place'' PNone,
                    doc_first_publish_year = kwarg kw ''first_publish_year'' PNone,
                    doc_edition_olids = kwarg kw ''edition_key'' PNone,
                    doc_language = kwarg kw ''language'' (PStr []),
                    doc_identifiers =
                      [(''olid'', PList [work_olid]),
                       (''isbns'', py_or (kwarg kw ''isbns'' PNone) (PList [])),
                       (''oclc'', py_or (kwarg kw ''oclc'' PNone) (PList [])),
                       (''lccn'', py_or (kwarg kw ''lccn'' PNone) (PList [])),
                       (''goodreads'', py_or (kwarg kw ''id_goodreads'' PNone) (PList [])),
                       (''librarything'',
                          py_or (kwarg kw ''id_librarything'' PNone) (PList []))]\<rparr>)))))"

text \<open>The comprehension \<^verbatim>\<open>[self.Document(**doc) for doc in docs]\<close>.\<close>

fun build_docs :: "pyval list \<Rightarrow> error + document list" where
  "build_docs [] = Inr []"
| "build_docs (doc # ds) =
     ebind (case doc of PDict kw \<Rightarrow> Document_init kw | _ \<Rightarrow> Inl TypeError) (\<lambda>d.
     ebind (build_docs ds) (\<lambda>ds'. Inr (d # ds')))"

record results =
  res_start :: pyval
  res_num_found :: pyval
  res_docs :: "document list"

text \<open>\<^verbatim>\<open>Results.__init__\<close>, called as \<^verbatim>\<open>Results(**kw)\<close>. The value of
  \<^verbatim>\<open>[...] or []\<close> is the list the comprehension built.\<close>

definition Results_init :: "(string \<times> pyval) list \<Rightarrow> error + results" where
  "Results_init kw =
     (if map_of kw ''self'' \<noteq> None then Inl TypeError
      else
        let start = kwarg kw ''start'' (PInt 0);
            num_found = kwarg kw ''num_found'' (PInt 0);
            docs = kwarg kw ''docs'' PNone
        in ebind (py_iter docs) (\<lambda>ds.
           ebind (build_docs ds) (\<lambda>ds'.
             Inr \<lparr>res_start = start, res_num_found = num_found, res_docs = ds'\<rparr>)))"

definition first :: "results \<Rightarrow> document option" where
  "first r = (case res_docs r of [] \<Rightarrow> None | d # ds \<Rightarrow> Some d)"

text \<open>A book the client builds is the call \<^verbatim>\<open>Book(**kw)\<close>, represented by its
  keyword arguments: the constructor is in \<^verbatim>\<open>olclient/book.py\<close>.\<close>

datatype book_obj = Book "(string \<times> pyval) list"

definition to_book :: "document \<Rightarrow> error + book_obj" where
  "to_book d =
     ebind (if py_truthy (doc_publishers d) then py_index0 (doc_publishers d)
            else Inr (PStr [])) (\<lambda>pub.
       Inr (Book [(''title'', doc_title d), (''subtitle'', doc_subtitle d),
                  (''identifiers'', PDict (doc_identifiers d)),
                  (''authors'', PList (doc_authors d)), (''publisher'', pub),
                  (''publish_date'', doc_first_publish_year d)]))"

text \<open>\<^verbatim>\<open>get_book_by_metadata\<close> catches \<^verbatim>\<open>ValueError\<close> around
  \<^verbatim>\<open>Results(**response.json())\<close> and nothing else.\<close>

definition get_book_by_metadata ::
    "network \<Rightarrow> string \<Rightarrow> string \<Rightarrow> string option \<Rightarrow> world \<Rightarrow> (error + book_obj option) \<times> world" where
  "get_book_by_metadata net base_url ttl author w =
     (let url = base_url @ ''/search.json?title='' @ ttl
                  @ (case author of
                       None \<Rightarrow> []
                     | Some a \<Rightarrow> if a \<noteq> [] then ''&author='' @ a else [])
      in case on_exception
                (send net (http_get False url)) w of
           (Inl e, w') \<Rightarrow> (Inl e, w')
         | (Inr response, w') \<Rightarrow>
             (case ebind (response_json response)
                     (\<lambda>j. case j of PDict kw \<Rightarrow> Results_init kw | _ \<Rightarrow> Inl TypeError) of
                Inl e \<Rightarrow> if e = ValueError then (Inr None, w') else (Inl e, w')
              | Inr r \<Rightarrow>
                  if py_truthy (res_num_found r) then
                    (case first r of
                       None \<Rightarrow> (Inl AttributeError, w')
                     | Some d \<Rightarrow> (ebind (to_book d) (\<lambda>b. Inr (Some b)), w'))
                  else (Inr None, w')))"

subsection \<open>Lookup by ISBN\<close>

text \<open>Item assignment with a string key, \<^verbatim>\<open>v['k'] = x\<close>.\<close>

fun py_setitem :: "pyval \<Rightarrow> string \<Rightarrow> pyval \<Rightarrow> error + pyval" where
  "py_setitem (PDict d) k x = Inr (PDict (AList.update k x d))"
| "py_setitem v k x = Inl TypeError"

text \<open>The comprehension that turns the \<^verbatim>\<open>authors\<close> array of an edition into
  \<^verbatim>\<open>Author\<close> objects.\<close>

fun author_objects :: "pyval list \<Rightarrow> error + pyval list" where
  "author_objects [] = Inr []"
| "author_objects (author # rest) =
     ebind (py_getitem author ''name'') (\<lambda>n.
     ebind (py_getitem author ''url'') (\<lambda>u.
     ebind (extract_olid_from_url u ''authors'') (\<lambda>ol.
     ebind (author_objects rest) (\<lambda>objs. Inr (PAuthor n ol # objs)))))"

text \<open>
  Lines 299 to 312 of \<^verbatim>\<open>get_book_by_isbn\<close>, on the parsed body. The statement
  \<^verbatim>\<open>print(edition['key'])\<close> contributes its lookup (its output is not part of the
  result). In \<^verbatim>\<open>edition['identifiers'][u'olid'] = [...]\<close> the right-hand side, with
  \<^verbatim>\<open>edition.pop('key')\<close>, is evaluated before \<^verbatim>\<open>edition['identifiers']\<close>. The
  assignment changes the dictionary that \<^verbatim>\<open>edition\<close> holds under
  \<^verbatim>\<open>identifiers\<close>, so the edition is updated with it.
\<close>

definition book_of_isbn_result :: "pyval \<Rightarrow> string \<Rightarrow> error + book_obj option" where
  "book_of_isbn_result result isbn =
     (let isbn_key = ''ISBN:'' @ isbn in
      ebind (py_contains isbn_key result) (\<lambda>present.
        if present then
          ebind (py_getitem result isbn_key) (\<lambda>edition.
          ebind (py_getitem edition ''key'') (\<lambda>printed.
            case edition of
              PDict ed \<Rightarrow>
                (case map_of ed ''key'' of
                   None \<Rightarrow> Inl KeyError
                 | Some k \<Rightarrow>
                     let ed1 = AList.delete ''key'' ed in
                     ebind (extract_olid_from_url k ''books'') (\<lambda>ol.
                     ebind (py_getitem (PDict ed1) ''identifiers'') (\<lambda>ids.
                     ebind (py_setitem ids ''olid'' (PList [ol])) (\<lambda>ids'.
                       let ed2 = AList.update ''identifiers'' ids' ed1;
                           authors = kwarg ed2 ''authors'' (PList []);
                           ed3 = AList.delete ''authors'' ed2
                       in ebind (py_iter authors) (\<lambda>as.
                          ebind (author_objects as) (\<lambda>objs.
                            Inr (Some (Book (AList.update ''authors'' (PList objs) ed3)))))))))
            | _ \<Rightarrow> Inl AttributeError))
        else Inr None))"

definition get_book_by_isbn ::
    "network \<Rightarrow> string \<Rightarrow> string \<Rightarrow> world \<Rightarrow> (error + book_obj option) \<times> world" where
  "get_book_by_isbn net base_url isbn w =
     (case on_exception
             (send net (http_get False (base_url @ ''/api/books?bibkeys=ISBN:'' @ isbn
                                          @ ''&format=json&jscmd=data''))) w of
        (Inl e, w') \<Rightarrow> (Inl e, w')
      | (Inr response, w') \<Rightarrow>
          (case response_json response of
             Inl e \<Rightarrow> if e = ValueError then (Inr None, w') else (Inl e, w')
           | Inr result \<Rightarrow> (book_of_isbn_result result isbn, w')))"



section \<open>Auxiliary facts\<close>

subsection \<open>The search of the extractor\<close>

lemma compile_label_plain:
  "list_all (\<lambda>c. \<not> re_special c) t \<Longrightarrow> compile_label t = Inr (map Lit t)"
proof (induction t)
  case Nil
  show ?case by simp
next
  case (Cons c t)
  then have "\<not> re_special c" and "compile_label t = Inr (map Lit t)" by simp_all
  moreover from \<open>\<not> re_special c\<close> have "c \<noteq> CHR ''.''" by (auto simp add: re_special_def)
  ultimately show ?case by simp
qed

lemma match_atoms_Lit: "match_atoms (map Lit t) s = Some r \<longleftrightarrow> s = t @ r"
proof (induction t arbitrary: s)
  case Nil
  show ?case by auto
next
  case (Cons c t)
  show ?case by (cases s) (auto simp add: Cons.IH)
qed

lemma takeWhile_eq_iff:
  "takeWhile P ys = g \<longleftrightarrow>
     (\<exists>rest. ys = g @ rest \<and> list_all P g \<and> (rest = [] \<or> \<not> P (hd rest)))"
proof
  assume "takeWhile P ys = g"
  then have "ys = g @ dropWhile P ys" "list_all P g"
    by (auto simp add: list_all_iff dest: set_takeWhileD)
  moreover have "dropWhile P ys = [] \<or> \<not> P (hd (dropWhile P ys))"
    using hd_dropWhile [of P ys] by blast
  ultimately show "\<exists>rest. ys = g @ rest \<and> list_all P g \<and> (rest = [] \<or> \<not> P (hd rest))"
    by blast
next
  assume "\<exists>rest. ys = g @ rest \<and> list_all P g \<and> (rest = [] \<or> \<not> P (hd rest))"
  then obtain rest where r: "ys = g @ rest" "list_all P g" "rest = [] \<or> \<not> P (hd rest)"
    by blast
  from r(3) have "takeWhile P rest = []" by (cases rest) auto
  with r(1,2) show "takeWhile P ys = g"
    by (simp add: list_all_iff takeWhile_append2)
qed

lemma match_here_Some:
  "match_here (map Lit t) s = Some g \<longleftrightarrow>
     (\<exists>rest. s = CHR ''/'' # t @ CHR ''/'' # g @ rest \<and> g \<noteq> [] \<and> list_all alnum g
             \<and> (rest = [] \<or> \<not> alnum (hd rest)))"
proof (cases s)
  case Nil
  then show ?thesis by (simp add: match_here_def)
next
  case (Cons x xs)
  show ?thesis
  proof (cases "match_atoms (map Lit t) xs")
    case None
    then have "\<And>r. xs \<noteq> t @ r" using match_atoms_Lit [of t xs] by auto
    with None Cons show ?thesis by (auto simp add: match_here_def)
  next
    case (Some r)
    then have xs: "xs = t @ r" by (simp add: match_atoms_Lit)
    show ?thesis
    proof (cases r)
      case Nil
      with Some Cons xs show ?thesis by (auto simp add: match_here_def)
    next
      case (Cons y ys)
      have "match_here (map Lit t) s = Some g \<longleftrightarrow>
              x = CHR ''/'' \<and> y = CHR ''/'' \<and> g \<noteq> [] \<and> takeWhile alnum ys = g"
        using \<open>s = x # xs\<close> Some Cons by (auto simp add: match_here_def)
      also have "\<dots> \<longleftrightarrow> (\<exists>rest. s = CHR ''/'' # t @ CHR ''/'' # g @ rest \<and> g \<noteq> []
             \<and> list_all alnum g \<and> (rest = [] \<or> \<not> alnum (hd rest)))"
        using \<open>s = x # xs\<close> xs Cons by (auto simp add: takeWhile_eq_iff)
      finally show ?thesis .
    qed
  qed
qed

lemma match_here_None:
  "match_here (map Lit t) s = None \<longleftrightarrow>
     \<not> (\<exists>c rest. s = CHR ''/'' # t @ CHR ''/'' # c # rest \<and> alnum c)"
proof
  assume n: "match_here (map Lit t) s = None"
  show "\<not> (\<exists>c rest. s = CHR ''/'' # t @ CHR ''/'' # c # rest \<and> alnum c)"
  proof
    assume "\<exists>c rest. s = CHR ''/'' # t @ CHR ''/'' # c # rest \<and> alnum c"
    then obtain c rest where s: "s = CHR ''/'' # t @ CHR ''/'' # c # rest" and c: "alnum c"
      by blast
    have "match_atoms (map Lit t) (t @ CHR ''/'' # c # rest) = Some (CHR ''/'' # c # rest)"
      by (simp add: match_atoms_Lit)
    with s c have "match_here (map Lit t) s \<noteq> None"
      by (simp add: match_here_def)
    with n show False by simp
  qed
next
  assume a: "\<not> (\<exists>c rest. s = CHR ''/'' # t @ CHR ''/'' # c # rest \<and> alnum c)"
  show "match_here (map Lit t) s = None"
  proof (cases "match_here (map Lit t) s")
    case None
    then show ?thesis .
  next
    case (Some g)
    then obtain rest where "s = CHR ''/'' # t @ CHR ''/'' # g @ rest" "g \<noteq> []" "list_all alnum g"
      using match_here_Some [of t s g] by blast
    then have "\<exists>c rest. s = CHR ''/'' # t @ CHR ''/'' # c # rest \<and> alnum c"
      by (cases g) auto
    with a show ?thesis by blast
  qed
qed

lemma re_search_None:
  "re_search as url = None \<longleftrightarrow> (\<forall>pre s. url = pre @ s \<longrightarrow> match_here as s = None)"
proof (induction url)
  case Nil
  show ?case by simp
next
  case (Cons x xs)
  show ?case
  proof (cases "match_here as (x # xs)")
    case (Some g)
    then have "\<not> (\<forall>pre s. x # xs = pre @ s \<longrightarrow> match_here as s = None)"
      by (auto intro: exI [of _ "[]"])
    with Some show ?thesis by simp
  next
    case None
    have "(\<forall>pre s. x # xs = pre @ s \<longrightarrow> match_here as s = None)
            \<longleftrightarrow> (\<forall>pre s. xs = pre @ s \<longrightarrow> match_here as s = None)"
      using None by (auto simp add: Cons_eq_append_conv)
    with None Cons.IH show ?thesis by simp
  qed
qed

lemma re_search_Some:
  "re_search as url = Some g \<longleftrightarrow>
     (\<exists>pre s. url = pre @ s \<and> match_here as s = Some g
        \<and> (\<forall>pre' s'. url = pre' @ s' \<and> length pre' < length pre \<longrightarrow> match_here as s' = None))"
proof (induction url)
  case Nil
  show ?case by auto
next
  case (Cons x xs)
  show ?case
  proof (cases "match_here as (x # xs)")
    case (Some g')
    have "(\<exists>pre s. x # xs = pre @ s \<and> match_here as s = Some g
        \<and> (\<forall>pre' s'. x # xs = pre' @ s' \<and> length pre' < length pre \<longrightarrow> match_here as s' = None))
        \<longleftrightarrow> g' = g"
    proof
      assume "\<exists>pre s. x # xs = pre @ s \<and> match_here as s = Some g
        \<and> (\<forall>pre' s'. x # xs = pre' @ s' \<and> length pre' < length pre \<longrightarrow> match_here as s' = None)"
      then obtain pre s where p: "x # xs = pre @ s" "match_here as s = Some g"
        "\<forall>pre' s'. x # xs = pre' @ s' \<and> length pre' < length pre \<longrightarrow> match_here as s' = None"
        by blast
      have "pre = []"
      proof (rule ccontr)
        assume "pre \<noteq> []"
        then have "x # xs = [] @ (x # xs) \<and> length ([] :: string) < length pre" by simp
        with p(3) have "match_here as (x # xs) = None" by blast
        with Some show False by simp
      qed
      with p(1,2) Some show "g' = g" by simp
    next
      assume "g' = g"
      with Some show "\<exists>pre s. x # xs = pre @ s \<and> match_here as s = Some g
        \<and> (\<forall>pre' s'. x # xs = pre' @ s' \<and> length pre' < length pre \<longrightarrow> match_here as s' = None)"
        by (intro exI [of _ "[]"] exI [of _ "x # xs"]) simp
    qed
    with Some show ?thesis by simp
  next
    case None
    have "(\<exists>pre s. x # xs = pre @ s \<and> match_here as s = Some g
        \<and> (\<forall>pre' s'. x # xs = pre' @ s' \<and> length pre' < length pre \<longrightarrow> match_here as s' = None))
       \<longleftrightarrow> (\<exists>pre s. xs = pre @ s \<and> match_here as s = Some g
        \<and> (\<forall>pre' s'. xs = pre' @ s' \<and> length pre' < length pre \<longrightarrow> match_here as s' = None))"
      (is "?L \<longleftrightarrow> ?R")
    proof
      assume ?L
      then obtain pre s where p: "x # xs = pre @ s" "match_here as s = Some g"
        "\<forall>pre' s'. x # xs = pre' @ s' \<and> length pre' < length pre \<longrightarrow> match_here as s' = None"
        by blast
      from p(1,2) None obtain p' where p': "pre = x # p'" "xs = p' @ s"
        by (cases pre) auto
      have "\<forall>pre' s'. xs = pre' @ s' \<and> length pre' < length p' \<longrightarrow> match_here as s' = None"
      proof (intro allI impI)
        fix pre' s'
        assume "xs = pre' @ s' \<and> length pre' < length p'"
        then have "x # xs = (x # pre') @ s' \<and> length (x # pre') < length pre"
          using p'(1) by simp
        with p(3) show "match_here as s' = None" by blast
      qed
      with p' p(2) show ?R by blast
    next
      assume ?R
      then obtain p' s where p: "xs = p' @ s" "match_here as s = Some g"
        "\<forall>pre' s'. xs = pre' @ s' \<and> length pre' < length p' \<longrightarrow> match_here as s' = None"
        by blast
      have "\<forall>pre' s'. x # xs = pre' @ s' \<and> length pre' < length (x # p')
              \<longrightarrow> match_here as s' = None"
      proof (intro allI impI)
        fix pre' s'
        assume a: "x # xs = pre' @ s' \<and> length pre' < length (x # p')"
        show "match_here as s' = None"
        proof (cases pre')
          case Nil
          with a None show ?thesis by simp
        next
          case (Cons y q)
          with a have "xs = q @ s' \<and> length q < length p'" by simp
          with p(3) show ?thesis by blast
        qed
      qed
      moreover have "x # xs = (x # p') @ s" using p(1) by simp
      ultimately show ?L using p(2) by blast
    qed
    with None Cons.IH show ?thesis by simp
  qed
qed


lemma extract_plain:
  "list_all (\<lambda>c. \<not> re_special c) t \<Longrightarrow>
     extract_olid_from_url (PStr url) t =
       (case re_search (map Lit t) url of None \<Rightarrow> Inr PNone | Some g \<Rightarrow> Inr (PStr g))"
  by (simp add: compile_label_plain)

lemma extract_works_total: "\<exists>v. extract_olid_from_url (PStr k) ''works'' = Inr v"
  by (simp add: re_special_def split: option.split)

lemma py_iter_or_list: "py_iter (py_or (PList xs) (PList [])) = Inr xs"
  by (cases xs) (simp_all add: py_or_def)

subsection \<open>The retry loop over one request\<close>

lemma send_eq: "send net q w = (net (length (sent w)) q, w\<lparr>sent := sent w @ [q]\<rparr>)"
  by (simp add: send_def)

lemma attempts_send_ok:
  assumes "net (length (sent w)) q = Inr v"
  shows "attempts r (send net q) w = (Inr v, w\<lparr>sent := sent w @ [q]\<rparr>)"
proof -
  have "send net q w = (Inr v, w\<lparr>sent := sent w @ [q]\<rparr>)"
    using assms by (simp add: send_eq)
  then show ?thesis by (cases r) simp_all
qed

lemma attempts_send_fatal:
  assumes "net (length (sent w)) q = Inl e" and "\<not> retriable e"
  shows "attempts r (send net q) w = (Inl e, w\<lparr>sent := sent w @ [q]\<rparr>)"
proof -
  have "send net q w = (Inl e, w\<lparr>sent := sent w @ [q]\<rparr>)"
    using assms by (simp add: send_eq)
  then show ?thesis using assms(2) by (cases r) simp_all
qed

lemma attempts_send_again:
  assumes "net (length (sent w)) q = Inl e" and "retriable e"
  shows "attempts (Suc r) (send net q) w = attempts r (send net q) (w\<lparr>sent := sent w @ [q]\<rparr>)"
proof -
  have "send net q w = (Inl e, w\<lparr>sent := sent w @ [q]\<rparr>)"
    using assms by (simp add: send_eq)
  then show ?thesis using assms(2) by simp
qed

lemma attempts_send_giveup:
  assumes "net (length (sent w)) q = Inl e" and "retriable e"
  shows "attempts 0 (send net q) w =
           (Inl e, w\<lparr>sent := sent w @ [q], gaveup := gaveup w @ [e]\<rparr>)"
proof -
  have "send net q w = (Inl e, w\<lparr>sent := sent w @ [q]\<rparr>)"
    using assms by (simp add: send_eq)
  then show ?thesis using assms(2) by simp
qed

lemma attempts_send_sent:
  "attempts r (send net q) w = (res, w') \<Longrightarrow>
     (\<exists>k. 0 < k \<and> k \<le> Suc r \<and> sent w' = sent w @ replicate k q)
       \<and> length (gaveup w') \<le> length (gaveup w) + 1"
proof (induction r arbitrary: w)
  case 0
  show ?case
  proof (cases "net (length (sent w)) q")
    case (Inr v)
    from attempts_send_ok [where net=net and w=w and q=q, OF this, of 0] "0.prems" show ?thesis
      by (auto intro: exI [of _ "Suc 0"])
  next
    case (Inl e)
    show ?thesis
    proof (cases "retriable e")
      case True
      from attempts_send_giveup [where net=net and w=w and q=q, OF Inl True] "0.prems" show ?thesis
        by (auto intro: exI [of _ "Suc 0"])
    next
      case False
      from attempts_send_fatal [where net=net and w=w and q=q, OF Inl False, of 0] "0.prems" show ?thesis
        by (auto intro: exI [of _ "Suc 0"])
    qed
  qed
next
  case (Suc r)
  show ?case
  proof (cases "net (length (sent w)) q")
    case (Inr v)
    from attempts_send_ok [where net=net and w=w and q=q, OF this, of "Suc r"] Suc.prems show ?thesis
      by (auto intro: exI [of _ "Suc 0"])
  next
    case (Inl e)
    show ?thesis
    proof (cases "retriable e")
      case False
      from attempts_send_fatal [where net=net and w=w and q=q, OF Inl False, of "Suc r"] Suc.prems show ?thesis
        by (auto intro: exI [of _ "Suc 0"])
    next
      case True
      from attempts_send_again [where net=net and w=w and q=q, OF Inl True, of r] Suc.prems
      have "attempts r (send net q) (w\<lparr>sent := sent w @ [q]\<rparr>) = (res, w')" by simp
      from Suc.IH [OF this] obtain k where
        k: "0 < k" "k \<le> Suc r" "sent w' = (sent w @ [q]) @ replicate k q"
        and g: "length (gaveup w') \<le> length (gaveup w) + 1"
        by auto
      from k have "sent w' = sent w @ replicate (Suc k) q" by simp
      with k g show ?thesis by (intro conjI exI [of _ "Suc k"]) auto
    qed
  qed
qed

lemma attempts_fail_then_ok:
  "(\<forall>k<n. \<exists>m. net (length (sent w) + k) q = Inl (RequestException m)) \<Longrightarrow>
   net (length (sent w) + n) q = Inr resp \<Longrightarrow> n \<le> r \<Longrightarrow>
   attempts r (send net q) w = (Inr resp, w\<lparr>sent := sent w @ replicate (Suc n) q\<rparr>)"
proof (induction n arbitrary: r w)
  case 0
  then have "net (length (sent w)) q = Inr resp" by simp
  from attempts_send_ok [where net=net and w=w and q=q, OF this] show ?case by simp
next
  case (Suc n)
  then obtain r' where r: "r = Suc r'" "n \<le> r'" by (cases r) auto
  from Suc.prems(1) obtain m where m: "net (length (sent w)) q = Inl (RequestException m)"
    by force
  let ?w1 = "w\<lparr>sent := sent w @ [q]\<rparr>"
  have a: "\<forall>k<n. \<exists>m. net (length (sent ?w1) + k) q = Inl (RequestException m)"
    using Suc.prems(1) by (auto dest: spec [of _ "Suc k" for k])
  have b: "net (length (sent ?w1) + n) q = Inr resp"
    using Suc.prems(2) by simp
  have "attempts r' (send net q) ?w1 = (Inr resp, ?w1\<lparr>sent := sent ?w1 @ replicate (Suc n) q\<rparr>)"
    by (rule Suc.IH [OF a b r(2)])
  with attempts_send_again [where net=net and w=w and q=q, OF m, of r'] r show ?case
    by (simp add: replicate_append_same)
qed

lemma attempts_all_fail:
  "(\<forall>k\<le>r. net (length (sent w) + k) q = Inl (RequestException (m k))) \<Longrightarrow>
   attempts r (send net q) w =
     (Inl (RequestException (m r)),
      w\<lparr>sent := sent w @ replicate (Suc r) q, gaveup := gaveup w @ [RequestException (m r)]\<rparr>)"
proof (induction r arbitrary: w m)
  case 0
  then have "net (length (sent w)) q = Inl (RequestException (m 0))" by simp
  from attempts_send_giveup [where net=net and w=w and q=q, OF this] show ?case by simp
next
  case (Suc r)
  let ?w1 = "w\<lparr>sent := sent w @ [q]\<rparr>"
  have h0: "net (length (sent w)) q = Inl (RequestException (m 0))"
    using Suc.prems by force
  have a: "\<forall>k\<le>r. net (length (sent ?w1) + k) q = Inl (RequestException (m (Suc k)))"
    using Suc.prems by (auto dest: spec [of _ "Suc k" for k])
  from Suc.IH [of ?w1 "\<lambda>k. m (Suc k)", OF a] attempts_send_again [where net=net and w=w and q=q, OF h0, of r] show ?case
    by (simp add: replicate_append_same)
qed

lemma on_exception_first_ok:
  "net (length (sent w)) q = Inr resp \<Longrightarrow>
   on_exception (send net q) w = (Inr resp, w\<lparr>sent := sent w @ [q]\<rparr>)"
  using attempts_fail_then_ok [of 0 net w q resp "max_tries - 1"]
  by (simp add: on_exception_def)

subsection \<open>Book creation\<close>

lemma first_valid_find:
  "first_valid ks ids =
     (case find (\<lambda>k. map_of ids k \<noteq> None) ks of
        None \<Rightarrow> Inr None
      | Some k \<Rightarrow> ebind (py_index0 (the (map_of ids k))) (\<lambda>x. Inr (Some (k, x))))"
  by (induction ks) auto

lemma py_index0_not_ValueError: "py_index0 v \<noteq> Inl ValueError"
  by (cases v rule: py_index0.cases) simp_all

lemma find_VALID_IDS_nonempty:
  "find P VALID_IDS = Some k \<Longrightarrow> k \<noteq> []"
  by (auto simp add: VALID_IDS_def split: if_splits)

lemma gpi_none:
  "find (\<lambda>k. map_of (identifiers b) k \<noteq> None) VALID_IDS = None
     \<Longrightarrow> get_primary_identifier b = Inl ValueError"
  by (simp add: get_primary_identifier_def first_valid_find)

lemma gpi_some:
  assumes "find (\<lambda>k. map_of (identifiers b) k \<noteq> None) VALID_IDS = Some k"
    and "map_of (identifiers b) k = Some l"
  shows "get_primary_identifier b =
           ebind (py_index0 l) (\<lambda>x. if py_truthy x then Inr (k, x) else Inl ValueError)"
  using assms find_VALID_IDS_nonempty [OF assms(1)]
  by (cases "py_index0 l") (simp_all add: get_primary_identifier_def first_valid_find)

lemma find_present:
  "find (\<lambda>k. map_of ids k \<noteq> None) ks = Some k \<Longrightarrow> \<exists>l. map_of ids k = Some l"
  by (auto dest: find_Some_iff [THEN iffD1])

lemma gmabn_world:
  assumes "get_matching_authors_by_name net base_url nm limit w = (res, w')"
  shows "\<exists>k\<le>5. sent w' = sent w @ replicate k
           (http_get True (base_url @ ''/authors/_autocomplete?q='' @ nm @ ''&limit='' @ str_int limit))"
proof (cases "nm = []")
  case True
  with assms have "w' = w" by (simp add: get_matching_authors_by_name_def)
  then show ?thesis by (intro exI [of _ 0]) simp
next
  case False
  let ?q = "http_get True (base_url @ ''/authors/_autocomplete?q='' @ nm @ ''&limit='' @ str_int limit)"
  obtain r w1 where a: "attempts 4 (send net ?q) w = (r, w1)"
    by (cases "attempts 4 (send net ?q) w") auto
  with assms False have "w' = w1"
    by (auto simp add: get_matching_authors_by_name_def on_exception_def max_tries_def
        split: sum.splits)
  with attempts_send_sent [OF a] show ?thesis by auto
qed

lemma gmao_world:
  assumes "get_matching_authors_olid net base_url nm w = (res, w')"
  shows "\<exists>k\<le>5. sent w' = sent w @ replicate k
           (http_get True (base_url @ ''/authors/_autocomplete?q='' @ nm @ ''&limit='' @ str_int 1))"
proof -
  obtain r w1 where a: "get_matching_authors_by_name net base_url nm 1 w = (r, w1)"
    by (cases "get_matching_authors_by_name net base_url nm 1 w") auto
  with assms have "w' = w1"
    by (auto simp add: get_matching_authors_olid_def split: sum.splits)
  with gmabn_world [OF a] show ?thesis by simp
qed

lemma gmao_empty: "get_matching_authors_olid net base_url [] w = (Inr None, w)"
  by (simp add: get_matching_authors_olid_def get_matching_authors_by_name_def)

lemma create_book_impl_debug:
  "create_book_impl net base_url t an ak pd pub k v True w =
     (if k \<in> set VALID_IDS
      then Inr (Payload [(''title'', t), (''author_name'', PStr an), (''author_key'', PStr ak),
                         (''publish_date'', pd), (''publisher'', pub), (''id_name'', PStr k),
                         (''id_value'', v), (''_save'', PStr [])])
      else Inl ValueError, w)"
  by (simp add: create_book_impl_def)

lemma gpi_valid:
  assumes "get_primary_identifier b = Inr (k, v)"
  shows "find (\<lambda>k. map_of (identifiers b) k \<noteq> None) VALID_IDS = Some k
         \<and> (\<exists>l. map_of (identifiers b) k = Some l \<and> py_index0 l = Inr v) \<and> py_truthy v
         \<and> k \<in> set VALID_IDS"
proof (cases "find (\<lambda>k. map_of (identifiers b) k \<noteq> None) VALID_IDS")
  case None
  from gpi_none [OF this] assms show ?thesis by simp
next
  case (Some k')
  from find_present [OF Some] obtain l where l: "map_of (identifiers b) k' = Some l" by blast
  from gpi_some [OF Some l] assms
  have "k' = k \<and> py_index0 l = Inr v \<and> py_truthy v"
    by (cases "py_index0 l") (auto split: if_splits)
  moreover have "k' \<in> set VALID_IDS"
    using Some by (auto dest: find_Some_iff [THEN iffD1] simp add: in_set_conv_nth)
  ultimately show ?thesis using Some l by auto
qed


subsection \<open>Lookup by ISBN\<close>

lemma extract_books_total: "\<exists>v. extract_olid_from_url (PStr k) ''books'' = Inr v"
  by (simp add: re_special_def split: option.split)


lemma get_book_by_isbn_json:
  assumes "on_exception (send net (http_get False (base_url @ ''/api/books?bibkeys=ISBN:'' @ isbn
                                               @ ''&format=json&jscmd=data''))) w
             = (Inr response, w')"
    and "resp_json response = Some j"
  shows "get_book_by_isbn net base_url isbn w = (book_of_isbn_result j isbn, w')"
  unfolding get_book_by_isbn_def using assms by (simp add: response_json_def)






lemma kwarg_authors_frame:
  "kwarg (AList.update ''identifiers'' x (AList.delete ''key'' ed)) ''authors'' dflt
     = kwarg ed ''authors'' dflt"
  by (simp add: kwarg_def AList.update_conv')

lemma book_of_isbn_result_no_identifiers:
  assumes "map_of result (''ISBN:'' @ isbn) = Some (PDict ed)"
    and "map_of ed ''key'' = Some (PStr k)"
    and "map_of ed ''identifiers'' = None"
  shows "book_of_isbn_result (PDict result) isbn = Inl KeyError"
proof -
  obtain ol where ol: "extract_olid_from_url (PStr k) ''books'' = Inr ol"
    using extract_books_total by blast
  have "map_of (AList.delete ''key'' ed) ''identifiers'' = None"
    using assms(3) by simp
  then show ?thesis
    using assms(1,2) ol by (simp add: book_of_isbn_result_def)
qed


lemma book_of_isbn_result_marshal:
  assumes "map_of result (''ISBN:'' @ isbn) = Some (PDict ed)"
    and "map_of ed ''key'' = Some (PStr k)"
    and "map_of ed ''identifiers'' = Some (PDict ids)"
    and "extract_olid_from_url (PStr k) ''books'' = Inr ol"
    and "py_iter (kwarg ed ''authors'' (PList [])) = Inr as"
    and "author_objects as = Inr objs"
  shows "book_of_isbn_result (PDict result) isbn =
           Inr (Some (Book (AList.update ''authors'' (PList objs)
                (AList.delete ''authors''
                  (AList.update ''identifiers'' (PDict (AList.update ''olid'' (PList [ol]) ids))
                    (AList.delete ''key'' ed))))))"
proof -
  have "map_of (AList.delete ''key'' ed) ''identifiers'' = Some (PDict ids)"
    using assms(3) by simp
  then show ?thesis
    using assms(1,2,4,5,6)
    by (simp add: book_of_isbn_result_def kwarg_authors_frame)
qed


lemma marshalled_fields:
  fixes ed :: "(string \<times> pyval) list"
  defines "kw \<equiv> \<lambda>objs idv. AList.update ''authors'' (PList objs)
                (AList.delete ''authors''
                  (AList.update ''identifiers'' idv (AList.delete ''key'' ed)))"
  shows "map_of (kw objs idv) ''identifiers'' = Some idv"
    and "map_of (kw objs idv) ''authors'' = Some (PList objs)"
    and "map_of (kw objs idv) ''key'' = None"
    and "f \<noteq> ''key'' \<Longrightarrow> f \<noteq> ''identifiers'' \<Longrightarrow> f \<noteq> ''authors''
           \<Longrightarrow> map_of (kw objs idv) f = map_of ed f"
  by (simp_all add: kw_def AList.update_conv' AList.delete_conv')


lemma extract_example_books:
  "extract_olid_from_url (PStr ''/books/OL1M'') ''books'' = Inr (PStr ''OL1M'')"
  by (simp add: re_special_def match_here_def alnum_def)

lemma extract_example_authors:
  "extract_olid_from_url (PStr ''/authors/OL2A'') ''authors'' = Inr (PStr ''OL2A'')"
  by (simp add: re_special_def match_here_def alnum_def)

subsection \<open>The chosen identifier in the request\<close>

lemma find_in_set: "find P xs = Some k \<Longrightarrow> k \<in> set xs"
  by (induction xs) (auto split: if_splits)

lemma create_book_chosen:
  assumes "get_primary_identifier b = Inr (k, v)"
    and "get_matching_authors_olid net base_url
           (case primary_author b of None \<Rightarrow> [] | Some a \<Rightarrow> name a) w = (Inr ol, w1)"
  shows "create_book net base_url b debug w =
           create_book_impl net base_url (title b)
             (case primary_author b of None \<Rightarrow> [] | Some a \<Rightarrow> name a)
             (case ol of None \<Rightarrow> ''__new__''
              | Some s \<Rightarrow> if s \<noteq> [] then ''/authors/'' @ s else ''__new__'')
             (publish_date b) (publisher b) k v debug w1"
  using assms by (simp add: create_book_def Let_def)

lemma create_book_impl_post:
  assumes "k \<in> set VALID_IDS"
    and "net (length (sent w))
           (http_post True (base_url @ ''/books/add'') []
              (PDict [(''title'', t), (''author_name'', PStr an), (''author_key'', PStr ak),
                      (''publish_date'', pd), (''publisher'', pub), (''id_name'', PStr k),
                      (''id_value'', v), (''_save'', PStr [])])) = Inr response"
  shows "\<exists>ol. extract_olid_from_url (PStr (resp_url response)) ''books'' = Inr ol
          \<and> create_book_impl net base_url t an ak pd pub k v False w =
              (Inr (Created ol),
               w\<lparr>sent := sent w @
                  [http_post True (base_url @ ''/books/add'') []
                     (PDict [(''title'', t), (''author_name'', PStr an), (''author_key'', PStr ak),
                      (''publish_date'', pd), (''publisher'', pub), (''id_name'', PStr k),
                      (''id_value'', v), (''_save'', PStr [])])]\<rparr>)"
proof -
  let ?q = "http_post True (base_url @ ''/books/add'') []
              (PDict [(''title'', t), (''author_name'', PStr an), (''author_key'', PStr ak),
                      (''publish_date'', pd), (''publisher'', pub), (''id_name'', PStr k),
                      (''id_value'', v), (''_save'', PStr [])])"
  obtain ol where ol: "extract_olid_from_url (PStr (resp_url response)) ''books'' = Inr ol"
    using extract_books_total by blast
  have f: "on_exception (send net ?q) w = (Inr response, w\<lparr>sent := sent w @ [?q]\<rparr>)"
    using on_exception_first_ok [of net w ?q response] assms(2) by simp
  have "create_book_impl net base_url t an ak pd pub k v False w =
              (Inr (Created ol), w\<lparr>sent := sent w @ [?q]\<rparr>)"
    unfolding create_book_impl_def Let_def using assms(1) f ol by simp
  with ol show ?thesis by blast
qed

section \<open>Search documents and results\<close>

text \<open>
  Claim C7. For every pair of author name and key lists a search document is built
  from, its author list is the pairwise zip of the two lists, cut at the shorter one;
  its length is the smaller of the two lengths. (The document needs its \<^verbatim>\<open>key\<close>
  parameter, a string, to be built at all.)
\<close>

theorem Document_init_authors_zip:
  assumes "map_of kw ''self'' = None" and "map_of kw ''key'' = Some (PStr k)"
    and "map_of kw ''author_name'' = Some (PList ns)"
    and "map_of kw ''author_key'' = Some (PList ks)"
  shows "\<exists>d. Document_init kw = Inr d
           \<and> doc_authors d = map (\<lambda>p. PAuthor (fst p) (snd p)) (zip ns ks)
           \<and> length (doc_authors d) = min (length ns) (length ks)"
proof -
  obtain v where v: "extract_olid_from_url (PStr k) ''works'' = Inr v"
    using extract_works_total by blast
  show ?thesis
    using assms v by (simp add: Document_init_def kwarg_def py_iter_or_list)
qed

text \<open>The instance of the claim: names \<^verbatim>\<open>["A", "B"]\<close> and keys \<^verbatim>\<open>["K1"]\<close> give
  exactly one author, \<^verbatim>\<open>Author(name="A", olid="K1")\<close>.\<close>

theorem Document_init_authors_zip_witness:
  "\<exists>d. Document_init [(''key'', PStr ''/works/OL1W''),
                        (''author_name'', PList [PStr ''A'', PStr ''B'']),
                        (''author_key'', PList [PStr ''K1''])] = Inr d
       \<and> doc_authors d = [PAuthor (PStr ''A'') (PStr ''K1'')]
       \<and> length (doc_authors d) = 1"
  using Document_init_authors_zip
    [of "[(''key'', PStr ''/works/OL1W''), (''author_name'', PList [PStr ''A'', PStr ''B'']),
          (''author_key'', PList [PStr ''K1''])]"
        "''/works/OL1W''" "[PStr ''A'', PStr ''B'']" "[PStr ''K1'']"]
  by simp

text \<open>
  Claim C9. Building a \<^verbatim>\<open>Results\<close> object without a \<^verbatim>\<open>docs\<close> argument, or with
  \<^verbatim>\<open>docs=None\<close>, raises \<^verbatim>\<open>TypeError\<close> (the comprehension iterates \<^verbatim>\<open>None\<close>); it
  does not give a \<^verbatim>\<open>Results\<close> with an empty list of documents. A search response
  whose JSON object has no \<^verbatim>\<open>docs\<close> field makes \<^verbatim>\<open>get_book_by_metadata\<close> raise that
  \<^verbatim>\<open>TypeError\<close>: its handler catches \<^verbatim>\<open>ValueError\<close> only.
\<close>

theorem Results_init_docs_none:
  "(map_of kw ''docs'' = None \<or> map_of kw ''docs'' = Some PNone
      \<longrightarrow> Results_init kw = Inl TypeError)
   \<and> (on_exception
        (send net (http_get False
           (base_url @ ''/search.json?title='' @ ttl
              @ (case author of None \<Rightarrow> []
                 | Some a \<Rightarrow> if a \<noteq> [] then ''&author='' @ a else [])))) w
        = (Inr response, w')
       \<and> resp_json response = Some (PDict kw)
       \<and> (map_of kw ''docs'' = None \<or> map_of kw ''docs'' = Some PNone)
      \<longrightarrow> get_book_by_metadata net base_url ttl author w = (Inl TypeError, w'))"
proof (intro conjI impI)
  assume "map_of kw ''docs'' = None \<or> map_of kw ''docs'' = Some PNone"
  then show "Results_init kw = Inl TypeError"
    by (auto simp add: Results_init_def kwarg_def)
next
  assume a: "on_exception
        (send net (http_get False
           (base_url @ ''/search.json?title='' @ ttl
              @ (case author of None \<Rightarrow> []
                 | Some a \<Rightarrow> if a \<noteq> [] then ''&author='' @ a else [])))) w
        = (Inr response, w')
       \<and> resp_json response = Some (PDict kw)
       \<and> (map_of kw ''docs'' = None \<or> map_of kw ''docs'' = Some PNone)"
  then have "Results_init kw = Inl TypeError"
    by (auto simp add: Results_init_def kwarg_def)
  with a show "get_book_by_metadata net base_url ttl author w = (Inl TypeError, w')"
    unfolding get_book_by_metadata_def Let_def by (simp add: response_json_def)
qed

theorem Results_init_docs_none_witness:
  "Results_init [] = Inl TypeError
   \<and> Results_init [(''start'', PInt 0), (''docs'', PNone)] = Inl TypeError
   \<and> get_book_by_metadata
       (\<lambda>n r. Inr \<lparr>resp_headers = [],
                   resp_json = Some (PDict [(''start'', PInt 0), (''num_found'', PInt 0)]),
                   resp_url = req_url r\<rparr>)
       ''http://localhost'' ''Emma'' None \<lparr>sent = [], gaveup = []\<rparr>
     = (Inl TypeError,
        \<lparr>sent = [http_get False ''http://localhost/search.json?title=Emma''], gaveup = []\<rparr>)"
proof -
  let ?kw = "[(''start'', PInt 0), (''num_found'', PInt 0)]"
  let ?net = "\<lambda>n r. Inr \<lparr>resp_headers = [], resp_json = Some (PDict ?kw),
                            resp_url = req_url r\<rparr>"
  let ?w = "\<lparr>sent = [], gaveup = []\<rparr>"
  let ?q = "http_get False (''http://localhost'' @ ''/search.json?title='' @ ''Emma'' @ [])"
  let ?resp = "\<lparr>resp_headers = [], resp_json = Some (PDict ?kw), resp_url = req_url ?q\<rparr>"
  have f: "on_exception (send ?net ?q) ?w = (Inr ?resp, \<lparr>sent = [?q], gaveup = []\<rparr>)"
    using on_exception_first_ok [of ?net ?w ?q] by simp
  from Results_init_docs_none
         [of ?kw ?net "''http://localhost''" "''Emma''" None ?w ?resp
             "\<lparr>sent = [?q], gaveup = []\<rparr>"] f
  have "get_book_by_metadata ?net ''http://localhost'' ''Emma'' None ?w
          = (Inl TypeError, \<lparr>sent = [?q], gaveup = []\<rparr>)"
    by simp
  with Results_init_docs_none [of "[]"]
    Results_init_docs_none [of "[(''start'', PInt 0), (''docs'', PNone)]"]
  show ?thesis by simp
qed

section \<open>The retry policy\<close>

text \<open>
  Claim C5. Every network call of the client is \<open>on_exception (send net q)\<close>. When
  the transport fails with a retriable error four times and then answers, the call
  returns the answer after five requests and no error reaches the failure callback.
  When all five attempts fail with a retriable error, the fifth error is handed to the
  callback, once, and is the error the caller gets. In every case between one and five
  requests are issued and the callback runs at most once. (The lengths of the pauses
  between attempts are not part of the model.)
\<close>

theorem retry_policy:
  "((\<forall>k<4. \<exists>m. net (length (sent w) + k) q = Inl (RequestException m))
      \<and> net (length (sent w) + 4) q = Inr resp
     \<longrightarrow> on_exception (send net q) w = (Inr resp, w\<lparr>sent := sent w @ replicate 5 q\<rparr>))
   \<and> ((\<forall>k<5. net (length (sent w) + k) q = Inl (RequestException (m k)))
     \<longrightarrow> on_exception (send net q) w =
           (Inl (RequestException (m 4)),
            w\<lparr>sent := sent w @ replicate 5 q,
              gaveup := gaveup w @ [RequestException (m 4)]\<rparr>))
   \<and> (on_exception (send net q) w = (res, w')
     \<longrightarrow> (\<exists>k. 0 < k \<and> k \<le> 5 \<and> sent w' = sent w @ replicate k q)
          \<and> length (gaveup w') \<le> length (gaveup w) + 1)"
proof (intro conjI impI)
  assume "(\<forall>k<4. \<exists>m. net (length (sent w) + k) q = Inl (RequestException m))
      \<and> net (length (sent w) + 4) q = Inr resp"
  then show "on_exception (send net q) w = (Inr resp, w\<lparr>sent := sent w @ replicate 5 q\<rparr>)"
    using attempts_fail_then_ok [of 4 net w q resp 4]
    by (simp add: on_exception_def max_tries_def eval_nat_numeral)
next
  assume "\<forall>k<5. net (length (sent w) + k) q = Inl (RequestException (m k))"
  then have "\<forall>k\<le>4. net (length (sent w) + k) q = Inl (RequestException (m k))" by simp
  from attempts_all_fail [of 4 net w q m, OF this]
  show "on_exception (send net q) w =
           (Inl (RequestException (m 4)),
            w\<lparr>sent := sent w @ replicate 5 q,
              gaveup := gaveup w @ [RequestException (m 4)]\<rparr>)"
    by (simp add: on_exception_def max_tries_def eval_nat_numeral)
next
  assume a: "on_exception (send net q) w = (res, w')"
  then have "attempts 4 (send net q) w = (res, w')"
    by (simp add: on_exception_def max_tries_def)
  from attempts_send_sent [OF this]
  show "\<exists>k. 0 < k \<and> k \<le> 5 \<and> sent w' = sent w @ replicate k q"
    and "length (gaveup w') \<le> length (gaveup w) + 1"
    by auto
qed


theorem retry_policy_witness:
  "on_exception
     (send (\<lambda>n r. if n < 4 then Inl (RequestException ''timeout'')
                   else Inr \<lparr>resp_headers = [], resp_json = None, resp_url = req_url r\<rparr>)
        (http_get False ''u''))
     \<lparr>sent = [], gaveup = []\<rparr>
   = (Inr \<lparr>resp_headers = [], resp_json = None, resp_url = ''u''\<rparr>,
      \<lparr>sent = replicate 5 (http_get False ''u''), gaveup = []\<rparr>)
   \<and> on_exception
       (send (\<lambda>n r. Inl (RequestException (replicate n CHR ''x''))) (http_get False ''u''))
       \<lparr>sent = [], gaveup = []\<rparr>
   = (Inl (RequestException ''xxxx''),
      \<lparr>sent = replicate 5 (http_get False ''u''), gaveup = [RequestException ''xxxx'']\<rparr>)"
  using retry_policy
    [of "\<lambda>n r. if n < 4 then Inl (RequestException ''timeout'')
                else Inr \<lparr>resp_headers = [], resp_json = None, resp_url = req_url r\<rparr>"
        "\<lparr>sent = [], gaveup = []\<rparr>" "http_get False ''u''"
        "\<lparr>resp_headers = [], resp_json = None, resp_url = ''u''\<rparr>"]
    retry_policy
    [of "\<lambda>n r. Inl (RequestException (replicate n CHR ''x''))"
        "\<lparr>sent = [], gaveup = []\<rparr>" "http_get False ''u''" _ "\<lambda>n. replicate n CHR ''x''"]
  by (simp add: http_get_def eval_nat_numeral)


section \<open>Book creation\<close>

text \<open>
  Claim C3. With \<^verbatim>\<open>debug=True\<close>, \<^verbatim>\<open>create_book\<close> issues no request to the creation
  endpoint: the requests it issues are at most five copies of the \<^verbatim>\<open>GET\<close> of the
  author autocomplete, and when it returns, it returns the assembled payload. For the book with title "T",
  ISBN-10 "1234567890", publisher "P", publication date "2000" and no author it issues
  no request at all and returns the payload of the claim, with author name \<^verbatim>\<open>""\<close> and
  author key \<^verbatim>\<open>"__new__"\<close>.
\<close>

theorem create_book_debug:
  "(create_book net base_url b True w = (res, w') \<longrightarrow>
      (\<exists>j\<le>5. sent w' = sent w @ replicate j
             (http_get True (base_url @ ''/authors/_autocomplete?q=''
                @ (case primary_author b of None \<Rightarrow> [] | Some a \<Rightarrow> name a)
                @ ''&limit=1'')))
      \<and> ((\<exists>e. res = Inl e)
         \<or> (\<exists>id_name id_value author_key.
               get_primary_identifier b = Inr (id_name, id_value)
               \<and> res = Inr (Payload
                   [(''title'', title b),
                    (''author_name'',
                       PStr (case primary_author b of None \<Rightarrow> [] | Some a \<Rightarrow> name a)),
                    (''author_key'', PStr author_key),
                    (''publish_date'', publish_date b), (''publisher'', publisher b),
                    (''id_name'', PStr id_name), (''id_value'', id_value),
                    (''_save'', PStr [])]))))
   \<and> create_book net0 base0
        \<lparr>title = PStr ''T'', publisher = PStr ''P'', publish_date = PStr ''2000'',
         identifiers = [(''isbn_10'', PList [PStr ''1234567890''])], primary_author = None\<rparr>
        True w0
      = (Inr (Payload
           [(''title'', PStr ''T''), (''author_name'', PStr []),
            (''author_key'', PStr ''__new__''), (''publish_date'', PStr ''2000''),
            (''publisher'', PStr ''P''), (''id_name'', PStr ''isbn_10''),
            (''id_value'', PStr ''1234567890''), (''_save'', PStr [])]), w0)"
proof (intro conjI impI)
  show "create_book net0 base0
        \<lparr>title = PStr ''T'', publisher = PStr ''P'', publish_date = PStr ''2000'',
         identifiers = [(''isbn_10'', PList [PStr ''1234567890''])], primary_author = None\<rparr>
        True w0
      = (Inr (Payload
           [(''title'', PStr ''T''), (''author_name'', PStr []),
            (''author_key'', PStr ''__new__''), (''publish_date'', PStr ''2000''),
            (''publisher'', PStr ''P''), (''id_name'', PStr ''isbn_10''),
            (''id_value'', PStr ''1234567890''), (''_save'', PStr [])]), w0)"
    by (simp add: create_book_def get_primary_identifier_def VALID_IDS_def gmao_empty
        create_book_impl_debug)
next
  assume a: "create_book net base_url b True w = (res, w')"
  let ?an = "case primary_author b of None \<Rightarrow> [] | Some a \<Rightarrow> name a"
  have "(\<exists>j\<le>5. sent w' = sent w @ replicate j
             (http_get True (base_url @ ''/authors/_autocomplete?q=''
                @ (case primary_author b of None \<Rightarrow> [] | Some a \<Rightarrow> name a)
                @ ''&limit=1'')))
      \<and> ((\<exists>e. res = Inl e)
         \<or> (\<exists>id_name id_value author_key.
               get_primary_identifier b = Inr (id_name, id_value)
               \<and> res = Inr (Payload
                   [(''title'', title b), (''author_name'', PStr ?an),
                    (''author_key'', PStr author_key),
                    (''publish_date'', publish_date b), (''publisher'', publisher b),
                    (''id_name'', PStr id_name), (''id_value'', id_value),
                    (''_save'', PStr [])])))"
  proof (cases "get_primary_identifier b")
    case (Inl e)
    with a have "res = Inl e" "w' = w" by (auto simp add: create_book_def)
    then show ?thesis by (auto intro: exI [of _ 0])
  next
    case (Inr kv)
    obtain k v where kv: "kv = (k, v)" by (cases kv) auto
    from gpi_valid [of b k v] Inr kv have valid: "k \<in> set VALID_IDS" by simp
    obtain r w1 where g: "get_matching_authors_olid net base_url ?an w = (r, w1)"
      by (cases "get_matching_authors_olid net base_url ?an w") auto
    have "str_int 1 = ''1''" by (simp add: str_int_def str_nat.simps)
    with gmao_world [OF g] have gets: "\<exists>j\<le>5. sent w1 = sent w @ replicate j
            (http_get True (base_url @ ''/authors/_autocomplete?q='' @ ?an @ ''&limit=1''))"
      by simp
    show ?thesis
    proof (cases r)
      case (Inl e)
      with a Inr kv g have "res = Inl e" "w' = w1" by (simp_all add: create_book_def)
      with gets show ?thesis by simp
    next
      case (Inr ol)
      with a \<open>get_primary_identifier b = Inr kv\<close> kv g valid
      have "w' = w1" and "\<exists>ak. res = Inr (Payload
                   [(''title'', title b), (''author_name'', PStr ?an),
                    (''author_key'', PStr ak),
                    (''publish_date'', publish_date b), (''publisher'', publisher b),
                    (''id_name'', PStr k), (''id_value'', v),
                    (''_save'', PStr [])])"
        by (auto simp add: create_book_def create_book_impl_debug)
      with gets \<open>get_primary_identifier b = Inr kv\<close> kv show ?thesis by auto
    qed
  qed
  then show "\<exists>j\<le>5. sent w' = sent w @ replicate j
             (http_get True (base_url @ ''/authors/_autocomplete?q=''
                @ (case primary_author b of None \<Rightarrow> [] | Some a \<Rightarrow> name a)
                @ ''&limit=1''))"
    and "(\<exists>e. res = Inl e)
         \<or> (\<exists>id_name id_value author_key.
               get_primary_identifier b = Inr (id_name, id_value)
               \<and> res = Inr (Payload
                   [(''title'', title b),
                    (''author_name'',
                       PStr (case primary_author b of None \<Rightarrow> [] | Some a \<Rightarrow> name a)),
                    (''author_key'', PStr author_key),
                    (''publish_date'', publish_date b), (''publisher'', publisher b),
                    (''id_name'', PStr id_name), (''id_value'', id_value),
                    (''_save'', PStr [])]))"
    by blast+
qed


theorem create_book_debug_witness:
  "create_book
     (\<lambda>n r. Inr \<lparr>resp_headers = [],
                 resp_json = Some (PList [PDict [(''name'', PStr ''A''),
                                                 (''key'', PStr ''/authors/OL2A'')]]),
                 resp_url = req_url r\<rparr>)
     ''http://localhost''
     \<lparr>title = PStr ''T'', publisher = PStr ''P'', publish_date = PStr ''2000'',
      identifiers = [(''isbn_10'', PList [PStr ''1234567890''])],
      primary_author = Some \<lparr>name = ''A'', olid = PNone\<rparr>\<rparr>
     True \<lparr>sent = [], gaveup = []\<rparr>
   = (Inr (Payload
        [(''title'', PStr ''T''), (''author_name'', PStr ''A''),
         (''author_key'', PStr ''/authors/OL2A''), (''publish_date'', PStr ''2000''),
         (''publisher'', PStr ''P''), (''id_name'', PStr ''isbn_10''),
         (''id_value'', PStr ''1234567890''), (''_save'', PStr [])]),
      \<lparr>sent = [http_get True ''http://localhost/authors/_autocomplete?q=A&limit=1''],
       gaveup = []\<rparr>)
   \<and> list_all (\<lambda>q. req_method q = GET)
        [http_get True ''http://localhost/authors/_autocomplete?q=A&limit=1'']"
proof -
  let ?net = "\<lambda>n r. Inr \<lparr>resp_headers = [],
                 resp_json = Some (PList [PDict [(''name'', PStr ''A''),
                                                 (''key'', PStr ''/authors/OL2A'')]]),
                 resp_url = req_url r\<rparr>"
  let ?b = "\<lparr>title = PStr ''T'', publisher = PStr ''P'', publish_date = PStr ''2000'',
      identifiers = [(''isbn_10'', PList [PStr ''1234567890''])],
      primary_author = Some \<lparr>name = ''A'', olid = PNone\<rparr>\<rparr>"
  let ?w = "\<lparr>sent = [], gaveup = []\<rparr>"
  let ?q = "http_get True ''http://localhost/authors/_autocomplete?q=A&limit=1''"
  have run: "create_book ?net ''http://localhost'' ?b True ?w
      = (Inr (Payload
        [(''title'', PStr ''T''), (''author_name'', PStr ''A''),
         (''author_key'', PStr ''/authors/OL2A''), (''publish_date'', PStr ''2000''),
         (''publisher'', PStr ''P''), (''id_name'', PStr ''isbn_10''),
         (''id_value'', PStr ''1234567890''), (''_save'', PStr [])]),
         \<lparr>sent = [?q], gaveup = []\<rparr>)"
    using on_exception_first_ok [of ?net ?w ?q]
    by (simp add: create_book_def get_primary_identifier_def VALID_IDS_def
        get_matching_authors_olid_def get_matching_authors_by_name_def response_json_def
        py_strip_def py_lower_def lower_char_def whitespace_def create_book_impl_debug
        str_int_def str_nat.simps Let_def)
  from create_book_debug [of ?net "''http://localhost''" ?b ?w _ "\<lparr>sent = [?q], gaveup = []\<rparr>"] run
  have "\<exists>j\<le>5. [?q] = replicate j ?q" by simp
  with run show ?thesis by (simp add: http_get_def)
qed

text \<open>
  Claim C4. The primary identifier is the first of \<^verbatim>\<open>isbn_10\<close>, \<^verbatim>\<open>isbn_13\<close>,
  \<^verbatim>\<open>lccn\<close>, in this order, that is a key of the book's identifier mapping, with
  element 0 of its value. When none of the three is a key, \<^verbatim>\<open>create_book\<close> raises
  \<^verbatim>\<open>ValueError\<close> and the world is unchanged: no request has been issued. When a kind
  is chosen and the author lookup returns, \<^verbatim>\<open>create_book\<close> carries the chosen kind and
  value on: with \<^verbatim>\<open>debug\<close> it returns the payload holding them, and without it the
  request to \<^verbatim>\<open>/books/add\<close> holds them and, once answered, the call returns what the
  extractor finds in the URL of the answer. In particular a book whose only kind of the
  three is an LCCN is created with \<^verbatim>\<open>lccn\<close> as the chosen kind.
\<close>

theorem primary_identifier_order:
  "(find (\<lambda>k. map_of (identifiers b) k \<noteq> None) [''isbn_10'', ''isbn_13'', ''lccn''] = None
      \<longrightarrow> get_primary_identifier b = Inl ValueError
          \<and> create_book net base_url b debug w = (Inl ValueError, w))
   \<and> (get_primary_identifier b = Inr (k, v)
      \<longrightarrow> find (\<lambda>k. map_of (identifiers b) k \<noteq> None) [''isbn_10'', ''isbn_13'', ''lccn''] = Some k
          \<and> (\<exists>l. map_of (identifiers b) k = Some l \<and> py_index0 l = Inr v))
   \<and> (find (\<lambda>k. map_of (identifiers b) k \<noteq> None) [''isbn_10'', ''isbn_13'', ''lccn''] = Some k
        \<and> map_of (identifiers b) k = Some l \<and> py_index0 l = Inr v \<and> py_truthy v
      \<longrightarrow> get_primary_identifier b = Inr (k, v))
   \<and> (map_of (identifiers b) ''isbn_10'' = None \<and> map_of (identifiers b) ''isbn_13'' = None
        \<and> map_of (identifiers b) ''lccn'' = Some (PList (v # vs)) \<and> py_truthy v
      \<longrightarrow> get_primary_identifier b = Inr (''lccn'', v))
   \<and> (find (\<lambda>k. map_of (identifiers b) k \<noteq> None) [''isbn_10'', ''isbn_13'', ''lccn''] = Some k
        \<and> map_of (identifiers b) k = Some l \<and> py_index0 l = Inr v \<and> py_truthy v
        \<and> get_matching_authors_olid net base_url (case primary_author b of None \<Rightarrow> [] | Some a \<Rightarrow> name a) w = (Inr ol, w1)
      \<longrightarrow> create_book net base_url b True w = (Inr (Payload [(''title'', title b), (''author_name'', PStr (case primary_author b of None \<Rightarrow> [] | Some a \<Rightarrow> name a)),
                (''author_key'', PStr (case ol of None \<Rightarrow> ''__new__''
                     | Some s \<Rightarrow> if s \<noteq> [] then ''/authors/'' @ s else ''__new__'')),
                (''publish_date'', publish_date b), (''publisher'', publisher b),
                (''id_name'', PStr k), (''id_value'', v), (''_save'', PStr [])]), w1)
          \<and> (net (length (sent w1)) (http_post True (base_url @ ''/books/add'') []
              (PDict [(''title'', title b), (''author_name'', PStr (case primary_author b of None \<Rightarrow> [] | Some a \<Rightarrow> name a)),
                (''author_key'', PStr (case ol of None \<Rightarrow> ''__new__''
                     | Some s \<Rightarrow> if s \<noteq> [] then ''/authors/'' @ s else ''__new__'')),
                (''publish_date'', publish_date b), (''publisher'', publisher b),
                (''id_name'', PStr k), (''id_value'', v), (''_save'', PStr [])])) = Inr response
             \<longrightarrow> (\<exists>new. extract_olid_from_url (PStr (resp_url response)) ''books'' = Inr new
                   \<and> create_book net base_url b False w =
                       (Inr (Created new), w1\<lparr>sent := sent w1 @ [(http_post True (base_url @ ''/books/add'') []
              (PDict [(''title'', title b), (''author_name'', PStr (case primary_author b of None \<Rightarrow> [] | Some a \<Rightarrow> name a)),
                (''author_key'', PStr (case ol of None \<Rightarrow> ''__new__''
                     | Some s \<Rightarrow> if s \<noteq> [] then ''/authors/'' @ s else ''__new__'')),
                (''publish_date'', publish_date b), (''publisher'', publisher b),
                (''id_name'', PStr k), (''id_value'', v), (''_save'', PStr [])]))]\<rparr>))))
   \<and> (map_of (identifiers b) ''isbn_10'' = None \<and> map_of (identifiers b) ''isbn_13'' = None
        \<and> map_of (identifiers b) ''lccn'' = Some (PList (v # vs)) \<and> py_truthy v
        \<and> get_matching_authors_olid net base_url (case primary_author b of None \<Rightarrow> [] | Some a \<Rightarrow> name a) w = (Inr ol, w1)
      \<longrightarrow> create_book net base_url b True w = (Inr (Payload [(''title'', title b), (''author_name'', PStr (case primary_author b of None \<Rightarrow> [] | Some a \<Rightarrow> name a)),
                (''author_key'', PStr (case ol of None \<Rightarrow> ''__new__''
                     | Some s \<Rightarrow> if s \<noteq> [] then ''/authors/'' @ s else ''__new__'')),
                (''publish_date'', publish_date b), (''publisher'', publisher b),
                (''id_name'', PStr ''lccn''), (''id_value'', v), (''_save'', PStr [])]), w1)
          \<and> (net (length (sent w1)) (http_post True (base_url @ ''/books/add'') []
              (PDict [(''title'', title b), (''author_name'', PStr (case primary_author b of None \<Rightarrow> [] | Some a \<Rightarrow> name a)),
                (''author_key'', PStr (case ol of None \<Rightarrow> ''__new__''
                     | Some s \<Rightarrow> if s \<noteq> [] then ''/authors/'' @ s else ''__new__'')),
                (''publish_date'', publish_date b), (''publisher'', publisher b),
                (''id_name'', PStr ''lccn''), (''id_value'', v), (''_save'', PStr [])])) = Inr response
             \<longrightarrow> (\<exists>new. extract_olid_from_url (PStr (resp_url response)) ''books'' = Inr new
                   \<and> create_book net base_url b False w =
                       (Inr (Created new), w1\<lparr>sent := sent w1 @ [(http_post True (base_url @ ''/books/add'') []
              (PDict [(''title'', title b), (''author_name'', PStr (case primary_author b of None \<Rightarrow> [] | Some a \<Rightarrow> name a)),
                (''author_key'', PStr (case ol of None \<Rightarrow> ''__new__''
                     | Some s \<Rightarrow> if s \<noteq> [] then ''/authors/'' @ s else ''__new__'')),
                (''publish_date'', publish_date b), (''publisher'', publisher b),
                (''id_name'', PStr ''lccn''), (''id_value'', v), (''_save'', PStr [])]))]\<rparr>))))"
proof -
  have old: "(find (\<lambda>k. map_of (identifiers b) k \<noteq> None) [''isbn_10'', ''isbn_13'', ''lccn''] = None
      \<longrightarrow> get_primary_identifier b = Inl ValueError
          \<and> create_book net base_url b debug w = (Inl ValueError, w))
   \<and> (get_primary_identifier b = Inr (k, v)
      \<longrightarrow> find (\<lambda>k. map_of (identifiers b) k \<noteq> None) [''isbn_10'', ''isbn_13'', ''lccn''] = Some k
          \<and> (\<exists>l. map_of (identifiers b) k = Some l \<and> py_index0 l = Inr v))
   \<and> (find (\<lambda>k. map_of (identifiers b) k \<noteq> None) [''isbn_10'', ''isbn_13'', ''lccn''] = Some k
        \<and> map_of (identifiers b) k = Some l \<and> py_index0 l = Inr v \<and> py_truthy v
      \<longrightarrow> get_primary_identifier b = Inr (k, v))
   \<and> (map_of (identifiers b) ''isbn_10'' = None \<and> map_of (identifiers b) ''isbn_13'' = None
        \<and> map_of (identifiers b) ''lccn'' = Some (PList (v # vs)) \<and> py_truthy v
      \<longrightarrow> get_primary_identifier b = Inr (''lccn'', v))"
  proof (intro conjI impI)
    assume "find (\<lambda>k. map_of (identifiers b) k \<noteq> None) [''isbn_10'', ''isbn_13'', ''lccn''] = None"
    then have "find (\<lambda>k. map_of (identifiers b) k \<noteq> None) VALID_IDS = None"
      by (simp add: VALID_IDS_def)
    from gpi_none [OF this]
    show "get_primary_identifier b = Inl ValueError"
      and "create_book net base_url b debug w = (Inl ValueError, w)"
      by (simp_all add: create_book_def)
  next
    assume "get_primary_identifier b = Inr (k, v)"
    from gpi_valid [OF this]
    show "find (\<lambda>k. map_of (identifiers b) k \<noteq> None) [''isbn_10'', ''isbn_13'', ''lccn''] = Some k"
      and "\<exists>l. map_of (identifiers b) k = Some l \<and> py_index0 l = Inr v"
      by (simp_all add: VALID_IDS_def)
  next
    assume a: "find (\<lambda>k. map_of (identifiers b) k \<noteq> None) [''isbn_10'', ''isbn_13'', ''lccn''] = Some k
          \<and> map_of (identifiers b) k = Some l \<and> py_index0 l = Inr v \<and> py_truthy v"
    then have "find (\<lambda>k. map_of (identifiers b) k \<noteq> None) VALID_IDS = Some k"
      by (simp add: VALID_IDS_def)
    from gpi_some [OF this, of l] a show "get_primary_identifier b = Inr (k, v)" by simp
  next
    assume a: "map_of (identifiers b) ''isbn_10'' = None \<and> map_of (identifiers b) ''isbn_13'' = None
          \<and> map_of (identifiers b) ''lccn'' = Some (PList (v # vs)) \<and> py_truthy v"
    then have "find (\<lambda>k. map_of (identifiers b) k \<noteq> None) VALID_IDS = Some ''lccn''"
      by (simp add: VALID_IDS_def)
    from gpi_some [OF this, of "PList (v # vs)"] a
    show "get_primary_identifier b = Inr (''lccn'', v)" by simp
  qed
  have general: "find (\<lambda>k. map_of (identifiers b) k \<noteq> None) [''isbn_10'', ''isbn_13'', ''lccn''] = Some k
        \<and> map_of (identifiers b) k = Some l \<and> py_index0 l = Inr v \<and> py_truthy v
        \<and> get_matching_authors_olid net base_url (case primary_author b of None \<Rightarrow> [] | Some a \<Rightarrow> name a) w = (Inr ol, w1)
      \<longrightarrow> create_book net base_url b True w = (Inr (Payload [(''title'', title b), (''author_name'', PStr (case primary_author b of None \<Rightarrow> [] | Some a \<Rightarrow> name a)),
                (''author_key'', PStr (case ol of None \<Rightarrow> ''__new__''
                     | Some s \<Rightarrow> if s \<noteq> [] then ''/authors/'' @ s else ''__new__'')),
                (''publish_date'', publish_date b), (''publisher'', publisher b),
                (''id_name'', PStr k), (''id_value'', v), (''_save'', PStr [])]), w1)
          \<and> (net (length (sent w1)) (http_post True (base_url @ ''/books/add'') []
              (PDict [(''title'', title b), (''author_name'', PStr (case primary_author b of None \<Rightarrow> [] | Some a \<Rightarrow> name a)),
                (''author_key'', PStr (case ol of None \<Rightarrow> ''__new__''
                     | Some s \<Rightarrow> if s \<noteq> [] then ''/authors/'' @ s else ''__new__'')),
                (''publish_date'', publish_date b), (''publisher'', publisher b),
                (''id_name'', PStr k), (''id_value'', v), (''_save'', PStr [])])) = Inr response
             \<longrightarrow> (\<exists>new. extract_olid_from_url (PStr (resp_url response)) ''books'' = Inr new
                   \<and> create_book net base_url b False w =
                       (Inr (Created new), w1\<lparr>sent := sent w1 @ [(http_post True (base_url @ ''/books/add'') []
              (PDict [(''title'', title b), (''author_name'', PStr (case primary_author b of None \<Rightarrow> [] | Some a \<Rightarrow> name a)),
                (''author_key'', PStr (case ol of None \<Rightarrow> ''__new__''
                     | Some s \<Rightarrow> if s \<noteq> [] then ''/authors/'' @ s else ''__new__'')),
                (''publish_date'', publish_date b), (''publisher'', publisher b),
                (''id_name'', PStr k), (''id_value'', v), (''_save'', PStr [])]))]\<rparr>)))"
  proof (rule impI)
    assume a: "find (\<lambda>k. map_of (identifiers b) k \<noteq> None) [''isbn_10'', ''isbn_13'', ''lccn''] = Some k
          \<and> map_of (identifiers b) k = Some l \<and> py_index0 l = Inr v \<and> py_truthy v
          \<and> get_matching_authors_olid net base_url (case primary_author b of None \<Rightarrow> [] | Some a \<Rightarrow> name a) w = (Inr ol, w1)"
    then have f: "find (\<lambda>k. map_of (identifiers b) k \<noteq> None) VALID_IDS = Some k"
      by (simp add: VALID_IDS_def)
    from gpi_some [OF f, of l] a have g: "get_primary_identifier b = Inr (k, v)" by simp
    from f have valid: "k \<in> set VALID_IDS"
      by (rule find_in_set)
    from a have look: "get_matching_authors_olid net base_url (case primary_author b of None \<Rightarrow> [] | Some a \<Rightarrow> name a) w = (Inr ol, w1)" by simp
    note cb = create_book_chosen [OF g look]
    have dbg: "create_book net base_url b True w = (Inr (Payload [(''title'', title b), (''author_name'', PStr (case primary_author b of None \<Rightarrow> [] | Some a \<Rightarrow> name a)),
                  (''author_key'', PStr (case ol of None \<Rightarrow> ''__new__''
                       | Some s \<Rightarrow> if s \<noteq> [] then ''/authors/'' @ s else ''__new__'')),
                  (''publish_date'', publish_date b), (''publisher'', publisher b),
                  (''id_name'', PStr k), (''id_value'', v), (''_save'', PStr [])]), w1)"
      using cb [of True] valid by (simp add: create_book_impl_debug)
    have pst: "\<exists>new. extract_olid_from_url (PStr (resp_url response)) ''books'' = Inr new
                     \<and> create_book net base_url b False w =
                         (Inr (Created new), w1\<lparr>sent := sent w1 @ [(http_post True (base_url @ ''/books/add'') []
                (PDict [(''title'', title b), (''author_name'', PStr (case primary_author b of None \<Rightarrow> [] | Some a \<Rightarrow> name a)),
                  (''author_key'', PStr (case ol of None \<Rightarrow> ''__new__''
                       | Some s \<Rightarrow> if s \<noteq> [] then ''/authors/'' @ s else ''__new__'')),
                  (''publish_date'', publish_date b), (''publisher'', publisher b),
                  (''id_name'', PStr k), (''id_value'', v), (''_save'', PStr [])]))]\<rparr>)"
      if n: "net (length (sent w1)) (http_post True (base_url @ ''/books/add'') []
                (PDict [(''title'', title b), (''author_name'', PStr (case primary_author b of None \<Rightarrow> [] | Some a \<Rightarrow> name a)),
                  (''author_key'', PStr (case ol of None \<Rightarrow> ''__new__''
                       | Some s \<Rightarrow> if s \<noteq> [] then ''/authors/'' @ s else ''__new__'')),
                  (''publish_date'', publish_date b), (''publisher'', publisher b),
                  (''id_name'', PStr k), (''id_value'', v), (''_save'', PStr [])])) = Inr response"
      using create_book_impl_post [where net=net and w=w1, OF valid n] cb [of False] by simp
    from dbg pst show "create_book net base_url b True w = (Inr (Payload [(''title'', title b), (''author_name'', PStr (case primary_author b of None \<Rightarrow> [] | Some a \<Rightarrow> name a)),
                  (''author_key'', PStr (case ol of None \<Rightarrow> ''__new__''
                       | Some s \<Rightarrow> if s \<noteq> [] then ''/authors/'' @ s else ''__new__'')),
                  (''publish_date'', publish_date b), (''publisher'', publisher b),
                  (''id_name'', PStr k), (''id_value'', v), (''_save'', PStr [])]), w1)
            \<and> (net (length (sent w1)) (http_post True (base_url @ ''/books/add'') []
                (PDict [(''title'', title b), (''author_name'', PStr (case primary_author b of None \<Rightarrow> [] | Some a \<Rightarrow> name a)),
                  (''author_key'', PStr (case ol of None \<Rightarrow> ''__new__''
                       | Some s \<Rightarrow> if s \<noteq> [] then ''/authors/'' @ s else ''__new__'')),
                  (''publish_date'', publish_date b), (''publisher'', publisher b),
                  (''id_name'', PStr k), (''id_value'', v), (''_save'', PStr [])])) = Inr response
               \<longrightarrow> (\<exists>new. extract_olid_from_url (PStr (resp_url response)) ''books'' = Inr new
                     \<and> create_book net base_url b False w =
                         (Inr (Created new), w1\<lparr>sent := sent w1 @ [(http_post True (base_url @ ''/books/add'') []
                (PDict [(''title'', title b), (''author_name'', PStr (case primary_author b of None \<Rightarrow> [] | Some a \<Rightarrow> name a)),
                  (''author_key'', PStr (case ol of None \<Rightarrow> ''__new__''
                       | Some s \<Rightarrow> if s \<noteq> [] then ''/authors/'' @ s else ''__new__'')),
                  (''publish_date'', publish_date b), (''publisher'', publisher b),
                  (''id_name'', PStr k), (''id_value'', v), (''_save'', PStr [])]))]\<rparr>)))"
      by blast
  qed
  have lccn_only: "map_of (identifiers b) ''isbn_10'' = None \<and> map_of (identifiers b) ''isbn_13'' = None
        \<and> map_of (identifiers b) ''lccn'' = Some (PList (v # vs)) \<and> py_truthy v
        \<and> get_matching_authors_olid net base_url (case primary_author b of None \<Rightarrow> [] | Some a \<Rightarrow> name a) w = (Inr ol, w1)
      \<longrightarrow> create_book net base_url b True w = (Inr (Payload [(''title'', title b), (''author_name'', PStr (case primary_author b of None \<Rightarrow> [] | Some a \<Rightarrow> name a)),
                (''author_key'', PStr (case ol of None \<Rightarrow> ''__new__''
                     | Some s \<Rightarrow> if s \<noteq> [] then ''/authors/'' @ s else ''__new__'')),
                (''publish_date'', publish_date b), (''publisher'', publisher b),
                (''id_name'', PStr ''lccn''), (''id_value'', v), (''_save'', PStr [])]), w1)
          \<and> (net (length (sent w1)) (http_post True (base_url @ ''/books/add'') []
              (PDict [(''title'', title b), (''author_name'', PStr (case primary_author b of None \<Rightarrow> [] | Some a \<Rightarrow> name a)),
                (''author_key'', PStr (case ol of None \<Rightarrow> ''__new__''
                     | Some s \<Rightarrow> if s \<noteq> [] then ''/authors/'' @ s else ''__new__'')),
                (''publish_date'', publish_date b), (''publisher'', publisher b),
                (''id_name'', PStr ''lccn''), (''id_value'', v), (''_save'', PStr [])])) = Inr response
             \<longrightarrow> (\<exists>new. extract_olid_from_url (PStr (resp_url response)) ''books'' = Inr new
                   \<and> create_book net base_url b False w =
                       (Inr (Created new), w1\<lparr>sent := sent w1 @ [(http_post True (base_url @ ''/books/add'') []
              (PDict [(''title'', title b), (''author_name'', PStr (case primary_author b of None \<Rightarrow> [] | Some a \<Rightarrow> name a)),
                (''author_key'', PStr (case ol of None \<Rightarrow> ''__new__''
                     | Some s \<Rightarrow> if s \<noteq> [] then ''/authors/'' @ s else ''__new__'')),
                (''publish_date'', publish_date b), (''publisher'', publisher b),
                (''id_name'', PStr ''lccn''), (''id_value'', v), (''_save'', PStr [])]))]\<rparr>)))"
  proof (rule impI)
    assume a: "map_of (identifiers b) ''isbn_10'' = None \<and> map_of (identifiers b) ''isbn_13'' = None
          \<and> map_of (identifiers b) ''lccn'' = Some (PList (v # vs)) \<and> py_truthy v
          \<and> get_matching_authors_olid net base_url (case primary_author b of None \<Rightarrow> [] | Some a \<Rightarrow> name a) w = (Inr ol, w1)"
    then have f: "find (\<lambda>k. map_of (identifiers b) k \<noteq> None) VALID_IDS = Some ''lccn''"
      by (simp add: VALID_IDS_def)
    from gpi_some [OF f, of "PList (v # vs)"] a have g: "get_primary_identifier b = Inr (''lccn'', v)" by simp
    from f have valid: "''lccn'' \<in> set VALID_IDS"
      by (rule find_in_set)
    from a have look: "get_matching_authors_olid net base_url (case primary_author b of None \<Rightarrow> [] | Some a \<Rightarrow> name a) w = (Inr ol, w1)" by simp
    note cb = create_book_chosen [OF g look]
    have dbg: "create_book net base_url b True w = (Inr (Payload [(''title'', title b), (''author_name'', PStr (case primary_author b of None \<Rightarrow> [] | Some a \<Rightarrow> name a)),
                  (''author_key'', PStr (case ol of None \<Rightarrow> ''__new__''
                       | Some s \<Rightarrow> if s \<noteq> [] then ''/authors/'' @ s else ''__new__'')),
                  (''publish_date'', publish_date b), (''publisher'', publisher b),
                  (''id_name'', PStr ''lccn''), (''id_value'', v), (''_save'', PStr [])]), w1)"
      using cb [of True] valid by (simp add: create_book_impl_debug)
    have pst: "\<exists>new. extract_olid_from_url (PStr (resp_url response)) ''books'' = Inr new
                     \<and> create_book net base_url b False w =
                         (Inr (Created new), w1\<lparr>sent := sent w1 @ [(http_post True (base_url @ ''/books/add'') []
                (PDict [(''title'', title b), (''author_name'', PStr (case primary_author b of None \<Rightarrow> [] | Some a \<Rightarrow> name a)),
                  (''author_key'', PStr (case ol of None \<Rightarrow> ''__new__''
                       | Some s \<Rightarrow> if s \<noteq> [] then ''/authors/'' @ s else ''__new__'')),
                  (''publish_date'', publish_date b), (''publisher'', publisher b),
                  (''id_name'', PStr ''lccn''), (''id_value'', v), (''_save'', PStr [])]))]\<rparr>)"
      if n: "net (length (sent w1)) (http_post True (base_url @ ''/books/add'') []
                (PDict [(''title'', title b), (''author_name'', PStr (case primary_author b of None \<Rightarrow> [] | Some a \<Rightarrow> name a)),
                  (''author_key'', PStr (case ol of None \<Rightarrow> ''__new__''
                       | Some s \<Rightarrow> if s \<noteq> [] then ''/authors/'' @ s else ''__new__'')),
                  (''publish_date'', publish_date b), (''publisher'', publisher b),
                  (''id_name'', PStr ''lccn''), (''id_value'', v), (''_save'', PStr [])])) = Inr response"
      using create_book_impl_post [where net=net and w=w1, OF valid n] cb [of False] by simp
    from dbg pst show "create_book net base_url b True w = (Inr (Payload [(''title'', title b), (''author_name'', PStr (case primary_author b of None \<Rightarrow> [] | Some a \<Rightarrow> name a)),
                  (''author_key'', PStr (case ol of None \<Rightarrow> ''__new__''
                       | Some s \<Rightarrow> if s \<noteq> [] then ''/authors/'' @ s else ''__new__'')),
                  (''publish_date'', publish_date b), (''publisher'', publisher b),
                  (''id_name'', PStr ''lccn''), (''id_value'', v), (''_save'', PStr [])]), w1)
            \<and> (net (length (sent w1)) (http_post True (base_url @ ''/books/add'') []
                (PDict [(''title'', title b), (''author_name'', PStr (case primary_author b of None \<Rightarrow> [] | Some a \<Rightarrow> name a)),
                  (''author_key'', PStr (case ol of None \<Rightarrow> ''__new__''
                       | Some s \<Rightarrow> if s \<noteq> [] then ''/authors/'' @ s else ''__new__'')),
                  (''publish_date'', publish_date b), (''publisher'', publisher b),
                  (''id_name'', PStr ''lccn''), (''id_value'', v), (''_save'', PStr [])])) = Inr response
               \<longrightarrow> (\<exists>new. extract_olid_from_url (PStr (resp_url response)) ''books'' = Inr new
                     \<and> create_book net base_url b False w =
                         (Inr (Created new), w1\<lparr>sent := sent w1 @ [(http_post True (base_url @ ''/books/add'') []
                (PDict [(''title'', title b), (''author_name'', PStr (case primary_author b of None \<Rightarrow> [] | Some a \<Rightarrow> name a)),
                  (''author_key'', PStr (case ol of None \<Rightarrow> ''__new__''
                       | Some s \<Rightarrow> if s \<noteq> [] then ''/authors/'' @ s else ''__new__'')),
                  (''publish_date'', publish_date b), (''publisher'', publisher b),
                  (''id_name'', PStr ''lccn''), (''id_value'', v), (''_save'', PStr [])]))]\<rparr>)))"
      by blast
  qed
  from old general lccn_only show ?thesis
    by (elim conjE) (intro conjI; assumption)
qed

theorem primary_identifier_order_witness:
  "create_book (\<lambda>n r. Inl (RequestException ''down'')) ''http://localhost''
     \<lparr>title = PStr ''T'', publisher = PStr ''P'', publish_date = PStr ''2000'',
        identifiers = [(''oclc'', PList [PStr ''1''])],
        primary_author = None\<rparr>
     False \<lparr>sent = [], gaveup = []\<rparr> = (Inl ValueError, \<lparr>sent = [], gaveup = []\<rparr>)
   \<and> get_primary_identifier
       \<lparr>title = PStr ''T'', publisher = PStr ''P'', publish_date = PStr ''2000'',
        identifiers = [(''lccn'', PList [PStr ''2001012345'']), (''oclc'', PList [PStr ''1''])],
        primary_author = None\<rparr> = Inr (''lccn'', PStr ''2001012345'')
   \<and> get_primary_identifier
       \<lparr>title = PStr ''T'', publisher = PStr ''P'', publish_date = PStr ''2000'',
        identifiers = [(''lccn'', PList [PStr ''2001012345'']),
                       (''isbn_13'', PList [PStr ''9783570028360''])],
        primary_author = None\<rparr> = Inr (''isbn_13'', PStr ''9783570028360'')
   \<and> create_book (\<lambda>n r. Inr \<lparr>resp_headers = [], resp_json = None,
                     resp_url = ''http://localhost/books/OL9M''\<rparr>) ''http://localhost''
       \<lparr>title = PStr ''T'', publisher = PStr ''P'', publish_date = PStr ''2000'',
        identifiers = [(''lccn'', PList [PStr ''2001012345'']), (''oclc'', PList [PStr ''1''])],
        primary_author = None\<rparr>
       True \<lparr>sent = [], gaveup = []\<rparr>
     = (Inr (Payload [(''title'', PStr ''T''), (''author_name'', PStr []),
          (''author_key'', PStr ''__new__''), (''publish_date'', PStr ''2000''),
          (''publisher'', PStr ''P''), (''id_name'', PStr ''lccn''),
          (''id_value'', PStr ''2001012345''), (''_save'', PStr [])]), \<lparr>sent = [], gaveup = []\<rparr>)
   \<and> create_book (\<lambda>n r. Inr \<lparr>resp_headers = [], resp_json = None,
                     resp_url = ''http://localhost/books/OL9M''\<rparr>) ''http://localhost''
       \<lparr>title = PStr ''T'', publisher = PStr ''P'', publish_date = PStr ''2000'',
        identifiers = [(''lccn'', PList [PStr ''2001012345'']), (''oclc'', PList [PStr ''1''])],
        primary_author = None\<rparr>
       False \<lparr>sent = [], gaveup = []\<rparr>
     = (Inr (Created (PStr ''OL9M'')),
        \<lparr>sent = [http_post True ''http://localhost/books/add'' [] (PDict [(''title'', PStr ''T''), (''author_name'', PStr []),
          (''author_key'', PStr ''__new__''), (''publish_date'', PStr ''2000''),
          (''publisher'', PStr ''P''), (''id_name'', PStr ''lccn''),
          (''id_value'', PStr ''2001012345''), (''_save'', PStr [])])],
         gaveup = []\<rparr>)"
proof -
  let ?b0 = "\<lparr>title = PStr ''T'', publisher = PStr ''P'', publish_date = PStr ''2000'',
        identifiers = [(''oclc'', PList [PStr ''1''])],
        primary_author = None\<rparr>"
  let ?b1 = "\<lparr>title = PStr ''T'', publisher = PStr ''P'', publish_date = PStr ''2000'',
        identifiers = [(''lccn'', PList [PStr ''2001012345'']), (''oclc'', PList [PStr ''1''])],
        primary_author = None\<rparr>"
  let ?b2 = "\<lparr>title = PStr ''T'', publisher = PStr ''P'', publish_date = PStr ''2000'',
        identifiers = [(''lccn'', PList [PStr ''2001012345'']),
                       (''isbn_13'', PList [PStr ''9783570028360''])],
        primary_author = None\<rparr>"
  let ?net = "(\<lambda>n r. Inr \<lparr>resp_headers = [], resp_json = None,
                     resp_url = ''http://localhost/books/OL9M''\<rparr>)"
  let ?w = "\<lparr>sent = [], gaveup = []\<rparr>"
  let ?resp = "\<lparr>resp_headers = [], resp_json = None, resp_url = ''http://localhost/books/OL9M''\<rparr>"
  have look: "get_matching_authors_olid ?net ''http://localhost''
                (case primary_author ?b1 of None \<Rightarrow> [] | Some a \<Rightarrow> name a) ?w = (Inr None, ?w)"
    by (simp add: gmao_empty)
  have ex: "extract_olid_from_url (PStr ''http://localhost/books/OL9M'') ''books''
              = Inr (PStr ''OL9M'')"
    by (simp add: re_special_def match_here_def alnum_def)
  note t1 = primary_identifier_order
    [where b = ?b0 and net = "\<lambda>n r. Inl (RequestException ''down'')"
       and base_url = "''http://localhost''" and debug = False and w = ?w]
  note t2 = primary_identifier_order
    [where b = ?b2 and k = "''isbn_13''" and v = "PStr ''9783570028360''"
       and l = "PList [PStr ''9783570028360'']"]
  note t3 = primary_identifier_order
    [where b = ?b1 and net = ?net and base_url = "''http://localhost''" and w = ?w
       and v = "PStr ''2001012345''" and vs = "[]" and ol = None and ?w1.0 = ?w
       and response = ?resp]
  have a: "create_book (\<lambda>n r. Inl (RequestException ''down'')) ''http://localhost'' ?b0 False ?w
             = (Inl ValueError, ?w)"
    using t1 by simp
  have b: "get_primary_identifier ?b2 = Inr (''isbn_13'', PStr ''9783570028360'')"
    using t2 by simp
  have c: "get_primary_identifier ?b1 = Inr (''lccn'', PStr ''2001012345'')"
    using t3 by simp
  have d: "create_book ?net ''http://localhost'' ?b1 True ?w = (Inr (Payload [(''title'', PStr ''T''), (''author_name'', PStr []),
          (''author_key'', PStr ''__new__''), (''publish_date'', PStr ''2000''),
          (''publisher'', PStr ''P''), (''id_name'', PStr ''lccn''),
          (''id_value'', PStr ''2001012345''), (''_save'', PStr [])]), ?w)"
    using t3 look by simp
  have "\<exists>new. extract_olid_from_url (PStr ''http://localhost/books/OL9M'') ''books'' = Inr new
          \<and> create_book ?net ''http://localhost'' ?b1 False ?w
              = (Inr (Created new),
                 \<lparr>sent = [http_post True ''http://localhost/books/add'' [] (PDict [(''title'', PStr ''T''), (''author_name'', PStr []),
          (''author_key'', PStr ''__new__''), (''publish_date'', PStr ''2000''),
          (''publisher'', PStr ''P''), (''id_name'', PStr ''lccn''),
          (''id_value'', PStr ''2001012345''), (''_save'', PStr [])])],
                  gaveup = []\<rparr>)"
    using t3 look by simp
  with ex have e: "create_book ?net ''http://localhost'' ?b1 False ?w
              = (Inr (Created (PStr ''OL9M'')),
                 \<lparr>sent = [http_post True ''http://localhost/books/add'' [] (PDict [(''title'', PStr ''T''), (''author_name'', PStr []),
          (''author_key'', PStr ''__new__''), (''publish_date'', PStr ''2000''),
          (''publisher'', PStr ''P''), (''id_name'', PStr ''lccn''),
          (''id_value'', PStr ''2001012345''), (''_save'', PStr [])])],
                  gaveup = []\<rparr>)"
    by auto
  from a b c d e show ?thesis by simp
qed

text \<open>
  Claim C10, as stated, fails: a book whose \<^verbatim>\<open>isbn_10\<close> entry is the list holding the
  empty string has the key in its mapping, and the operation raises \<^verbatim>\<open>ValueError\<close>
  all the same, through the test \<^verbatim>\<open>not (id_name and id_value)\<close>.
\<close>

theorem primary_identifier_empty_value:
  "get_primary_identifier
     \<lparr>title = PStr ''T'', publisher = PStr ''P'', publish_date = PStr ''2000'',
      identifiers = [(''isbn_10'', PList [PStr []])], primary_author = None\<rparr> = Inl ValueError
   \<and> map_of (identifiers
       \<lparr>title = PStr ''T'', publisher = PStr ''P'', publish_date = PStr ''2000'',
        identifiers = [(''isbn_10'', PList [PStr []])], primary_author = None\<rparr>) ''isbn_10''
     = Some (PList [PStr []])"
  by (simp add: get_primary_identifier_def VALID_IDS_def)

text \<open>
  Claim C10, amended. When the first kind found in the preference order maps to an
  empty list, the operation raises \<^verbatim>\<open>IndexError\<close>, not \<^verbatim>\<open>ValueError\<close>, and issues
  no request. It raises \<^verbatim>\<open>ValueError\<close> exactly when none of the three kinds is a key
  of the mapping, or element 0 of the first present kind's value is false in a boolean
  context (an empty string, for example).
\<close>

theorem primary_identifier_errors:
  "(find (\<lambda>k. map_of (identifiers b) k \<noteq> None) [''isbn_10'', ''isbn_13'', ''lccn''] = Some k
        \<and> map_of (identifiers b) k = Some (PList [])
      \<longrightarrow> get_primary_identifier b = Inl IndexError
          \<and> create_book net base_url b debug w = (Inl IndexError, w))
   \<and> (get_primary_identifier b = Inl ValueError
      \<longleftrightarrow> (find (\<lambda>k. map_of (identifiers b) k \<noteq> None) [''isbn_10'', ''isbn_13'', ''lccn''] = None
           \<or> (\<exists>k l x. find (\<lambda>k. map_of (identifiers b) k \<noteq> None)
                         [''isbn_10'', ''isbn_13'', ''lccn''] = Some k
                 \<and> map_of (identifiers b) k = Some l \<and> py_index0 l = Inr x
                 \<and> \<not> py_truthy x)))"
proof (intro conjI impI)
  assume a: "find (\<lambda>k. map_of (identifiers b) k \<noteq> None) [''isbn_10'', ''isbn_13'', ''lccn''] = Some k
        \<and> map_of (identifiers b) k = Some (PList [])"
  then have "find (\<lambda>k. map_of (identifiers b) k \<noteq> None) VALID_IDS = Some k"
    by (simp add: VALID_IDS_def)
  from gpi_some [OF this, of "PList []"] a
  show "get_primary_identifier b = Inl IndexError"
    and "create_book net base_url b debug w = (Inl IndexError, w)"
    by (simp_all add: create_book_def)
next
  let ?f = "find (\<lambda>k. map_of (identifiers b) k \<noteq> None) [''isbn_10'', ''isbn_13'', ''lccn'']"
  have f: "?f = find (\<lambda>k. map_of (identifiers b) k \<noteq> None) VALID_IDS"
    by (simp add: VALID_IDS_def)
  show "get_primary_identifier b = Inl ValueError
      \<longleftrightarrow> (?f = None
           \<or> (\<exists>k l x. ?f = Some k
                 \<and> map_of (identifiers b) k = Some l \<and> py_index0 l = Inr x
                 \<and> \<not> py_truthy x))"
  proof (cases ?f)
    case None
    with gpi_none [of b] f show ?thesis by simp
  next
    case (Some k')
    with f have s: "find (\<lambda>k. map_of (identifiers b) k \<noteq> None) VALID_IDS = Some k'" by simp
    from find_present [OF s] obtain l where l: "map_of (identifiers b) k' = Some l" by blast
    show ?thesis
    proof (cases "py_index0 l")
      case (Inl e)
      with py_index0_not_ValueError [of l] have "e \<noteq> ValueError" by auto
      with gpi_some [OF s l] Inl Some l show ?thesis by simp
    next
      case (Inr x)
      with gpi_some [OF s l] Some l show ?thesis by simp
    qed
  qed
qed

theorem primary_identifier_errors_witness:
  "get_primary_identifier
     \<lparr>title = PStr ''T'', publisher = PStr ''P'', publish_date = PStr ''2000'',
      identifiers = [(''isbn_13'', PList [])], primary_author = None\<rparr> = Inl IndexError
   \<and> create_book (\<lambda>n r. Inl (RequestException ''down'')) ''http://localhost''
       \<lparr>title = PStr ''T'', publisher = PStr ''P'', publish_date = PStr ''2000'',
        identifiers = [(''isbn_13'', PList [])], primary_author = None\<rparr>
       False \<lparr>sent = [], gaveup = []\<rparr> = (Inl IndexError, \<lparr>sent = [], gaveup = []\<rparr>)"
  using primary_identifier_errors
    [of "\<lparr>title = PStr ''T'', publisher = PStr ''P'', publish_date = PStr ''2000'',
          identifiers = [(''isbn_13'', PList [])], primary_author = None\<rparr>" "''isbn_13''"
        "\<lambda>n r. Inl (RequestException ''down'')" "''http://localhost''" False
        "\<lparr>sent = [], gaveup = []\<rparr>"]
  by simp

section \<open>Author lookup\<close>

text \<open>
  Claim C1 does not hold of the code: the loop of \<^verbatim>\<open>get_matching_authors_olid\<close>
  returns at the first candidate whose normalized name equals the normalized query and
  never looks for a second one. With two candidates named "Mike Smith" it returns the
  identifier of the first.
\<close>

theorem get_matching_authors_olid_two_matches:
  "fst (get_matching_authors_olid
          (\<lambda>n r. Inr \<lparr>resp_headers = [],
                      resp_json = Some (PList
                        [PDict [(''name'', PStr ''Mike Smith''), (''key'', PStr ''/authors/OL1A'')],
                         PDict [(''name'', PStr ''Mike Smith''), (''key'', PStr ''/authors/OL2A'')]]),
                      resp_url = req_url r\<rparr>)
          ''https://openlibrary.org'' ''Mike Smith'' \<lparr>sent = [], gaveup = []\<rparr>)
   = Inr (Some ''OL1A'')"
  using on_exception_first_ok
    [of "\<lambda>n r. Inr \<lparr>resp_headers = [],
                      resp_json = Some (PList
                        [PDict [(''name'', PStr ''Mike Smith''), (''key'', PStr ''/authors/OL1A'')],
                         PDict [(''name'', PStr ''Mike Smith''), (''key'', PStr ''/authors/OL2A'')]]),
                      resp_url = req_url r\<rparr>"
        "\<lparr>sent = [], gaveup = []\<rparr>"
        "http_get True (''https://openlibrary.org'' @ ''/authors/_autocomplete?q='' @ ''Mike Smith''
                          @ ''&limit='' @ str_int 1)"]
  by (simp add: get_matching_authors_olid_def get_matching_authors_by_name_def
      response_json_def py_strip_def py_lower_def lower_char_def whitespace_def)


section \<open>Lookup by ISBN\<close>

text \<open>
  Claim C2, as stated, fails: the edition of the claim has no \<^verbatim>\<open>identifiers\<close> field,
  and \<^verbatim>\<open>edition['identifiers'][u'olid'] = ...\<close> raises \<^verbatim>\<open>KeyError\<close> on it.
\<close>

theorem get_book_by_isbn_without_identifiers:
  "fst (get_book_by_isbn
          (\<lambda>n r. Inr \<lparr>resp_headers = [],
                      resp_json = Some (PDict
                        [(''ISBN:123'',
                          PDict [(''key'', PStr ''/books/OL1M''),
                                 (''authors'', PList [PDict [(''name'', PStr ''A''),
                                                             (''url'', PStr ''/authors/OL2A'')]]),
                                 (''title'', PStr ''X'')])]),
                      resp_url = req_url r\<rparr>)
          ''http://localhost'' ''123'' \<lparr>sent = [], gaveup = []\<rparr>)
   = Inl KeyError"
proof -
  let ?ed = "[(''key'', PStr ''/books/OL1M''),
              (''authors'', PList [PDict [(''name'', PStr ''A''),
                                          (''url'', PStr ''/authors/OL2A'')]]),
              (''title'', PStr ''X'')]"
  let ?resp = "\<lparr>resp_headers = [], resp_json = Some (PDict [(''ISBN:123'', PDict ?ed)]),
                resp_url = ''http://localhost/api/books?bibkeys=ISBN:123&format=json&jscmd=data''\<rparr>"
  let ?net = "\<lambda>n r. Inr \<lparr>resp_headers = [],
                      resp_json = Some (PDict [(''ISBN:123'', PDict ?ed)]),
                      resp_url = req_url r\<rparr>"
  let ?w = "\<lparr>sent = [], gaveup = []\<rparr>"
  let ?q = "http_get False (''http://localhost'' @ ''/api/books?bibkeys=ISBN:'' @ ''123''
                              @ ''&format=json&jscmd=data'')"
  have f: "on_exception (send ?net ?q) ?w = (Inr ?resp, ?w\<lparr>sent := sent ?w @ [?q]\<rparr>)"
    using on_exception_first_ok [of ?net ?w ?q] by (simp add: http_get_def)
  have j: "resp_json ?resp = Some (PDict [(''ISBN:123'', PDict ?ed)])" by simp
  have "book_of_isbn_result (PDict [(''ISBN:123'', PDict ?ed)]) ''123'' = Inl KeyError"
    by (rule book_of_isbn_result_no_identifiers [of _ _ ?ed "''/books/OL1M''"]) simp_all
  with get_book_by_isbn_json [OF f j] show ?thesis by simp
qed

text \<open>
  Claim C2, amended. When the body holds, under \<^verbatim>\<open>ISBN:<isbn>\<close>, an edition with a
  string \<^verbatim>\<open>key\<close>, an \<^verbatim>\<open>identifiers\<close> object and an \<^verbatim>\<open>authors\<close> array that
  converts, \<^verbatim>\<open>get_book_by_isbn\<close> returns the book built from the edition in which
  \<^verbatim>\<open>key\<close> is gone, \<^verbatim>\<open>identifiers\<close> has the entry \<^verbatim>\<open>olid\<close> holding the one-element
  list of what the extractor finds in the key, \<^verbatim>\<open>authors\<close> holds the converted
  authors and every other field is as it was. An edition without an \<^verbatim>\<open>identifiers\<close>
  field raises \<^verbatim>\<open>KeyError\<close>.
\<close>

theorem get_book_by_isbn_marshal:
  assumes "on_exception (send net (http_get False (base_url @ ''/api/books?bibkeys=ISBN:'' @ isbn
                                               @ ''&format=json&jscmd=data''))) w
             = (Inr response, w')"
    and "resp_json response = Some (PDict result)"
    and "map_of result (''ISBN:'' @ isbn) = Some (PDict ed)"
    and "map_of ed ''key'' = Some (PStr k)"
  shows "(map_of ed ''identifiers'' = None
            \<longrightarrow> get_book_by_isbn net base_url isbn w = (Inl KeyError, w'))
       \<and> (map_of ed ''identifiers'' = Some (PDict ids)
            \<and> ebind (py_iter (kwarg ed ''authors'' (PList []))) author_objects = Inr objs
          \<longrightarrow> (\<exists>ol kw. extract_olid_from_url (PStr k) ''books'' = Inr ol
                 \<and> get_book_by_isbn net base_url isbn w = (Inr (Some (Book kw)), w')
                 \<and> map_of kw ''identifiers''
                     = Some (PDict (AList.update ''olid'' (PList [ol]) ids))
                 \<and> map_of kw ''authors'' = Some (PList objs)
                 \<and> map_of kw ''key'' = None
                 \<and> (\<forall>f. f \<notin> {''key'', ''identifiers'', ''authors''}
                        \<longrightarrow> map_of kw f = map_of ed f)))"
proof (intro conjI impI)
  assume "map_of ed ''identifiers'' = None"
  from book_of_isbn_result_no_identifiers [OF assms(3,4) this]
    get_book_by_isbn_json [OF assms(1,2)]
  show "get_book_by_isbn net base_url isbn w = (Inl KeyError, w')" by simp
next
  assume a: "map_of ed ''identifiers'' = Some (PDict ids)
            \<and> ebind (py_iter (kwarg ed ''authors'' (PList []))) author_objects = Inr objs"
  obtain ol where ol: "extract_olid_from_url (PStr k) ''books'' = Inr ol"
    using extract_books_total by blast
  obtain as where as: "py_iter (kwarg ed ''authors'' (PList [])) = Inr as"
    and objs: "author_objects as = Inr objs"
    using a by (cases "py_iter (kwarg ed ''authors'' (PList []))") auto
  let ?kw = "AList.update ''authors'' (PList objs)
                (AList.delete ''authors''
                  (AList.update ''identifiers'' (PDict (AList.update ''olid'' (PList [ol]) ids))
                    (AList.delete ''key'' ed)))"
  from a have i: "map_of ed ''identifiers'' = Some (PDict ids)" by (rule conjunct1)
  from book_of_isbn_result_marshal [OF assms(3,4) i ol as objs]
    get_book_by_isbn_json [OF assms(1,2)]
  have run: "get_book_by_isbn net base_url isbn w = (Inr (Some (Book ?kw)), w')" by simp
  have frame: "\<forall>f. f \<notin> {''key'', ''identifiers'', ''authors''} \<longrightarrow> map_of ?kw f = map_of ed f"
    using marshalled_fields(4) [of _ objs "PDict (AList.update ''olid'' (PList [ol]) ids)" ed]
    by simp
  show "\<exists>ol kw. extract_olid_from_url (PStr k) ''books'' = Inr ol
                 \<and> get_book_by_isbn net base_url isbn w = (Inr (Some (Book kw)), w')
                 \<and> map_of kw ''identifiers''
                     = Some (PDict (AList.update ''olid'' (PList [ol]) ids))
                 \<and> map_of kw ''authors'' = Some (PList objs)
                 \<and> map_of kw ''key'' = None
                 \<and> (\<forall>f. f \<notin> {''key'', ''identifiers'', ''authors''}
                        \<longrightarrow> map_of kw f = map_of ed f)"
    apply (rule exI [of _ ol])
    apply (rule exI [of _ ?kw])
    apply (intro conjI)
         apply (rule ol)
        apply (rule run)
       apply (rule marshalled_fields(1))
      apply (rule marshalled_fields(2))
     apply (rule marshalled_fields(3))
    apply (rule frame)
    done
qed


text \<open>The instance of the claim with an (empty) \<^verbatim>\<open>identifiers\<close> object added to the
  edition: identifiers \<^verbatim>\<open>olid: ["OL1M"]\<close>, authors
  \<^verbatim>\<open>[Author(name="A", olid="OL2A")]\<close>, title "X".\<close>

theorem get_book_by_isbn_marshal_witness:
  "\<exists>kw. get_book_by_isbn
          (\<lambda>n r. Inr \<lparr>resp_headers = [],
                      resp_json = Some (PDict
                        [(''ISBN:123'',
                          PDict [(''key'', PStr ''/books/OL1M''),
                                 (''identifiers'', PDict []),
                                 (''authors'', PList [PDict [(''name'', PStr ''A''),
                                                             (''url'', PStr ''/authors/OL2A'')]]),
                                 (''title'', PStr ''X'')])]),
                      resp_url = req_url r\<rparr>)
          ''http://localhost'' ''123'' \<lparr>sent = [], gaveup = []\<rparr>
        = (Inr (Some (Book kw)),
           \<lparr>sent = [http_get False
                      ''http://localhost/api/books?bibkeys=ISBN:123&format=json&jscmd=data''],
            gaveup = []\<rparr>)
      \<and> map_of kw ''identifiers'' = Some (PDict [(''olid'', PList [PStr ''OL1M''])])
      \<and> map_of kw ''authors'' = Some (PList [PAuthor (PStr ''A'') (PStr ''OL2A'')])
      \<and> map_of kw ''title'' = Some (PStr ''X'')
      \<and> map_of kw ''key'' = None"
proof -
  let ?ed = "[(''key'', PStr ''/books/OL1M''), (''identifiers'', PDict []),
              (''authors'', PList [PDict [(''name'', PStr ''A''),
                                          (''url'', PStr ''/authors/OL2A'')]]),
              (''title'', PStr ''X'')]"
  let ?resp = "\<lparr>resp_headers = [], resp_json = Some (PDict [(''ISBN:123'', PDict ?ed)]),
                resp_url = ''http://localhost/api/books?bibkeys=ISBN:123&format=json&jscmd=data''\<rparr>"
  let ?net = "\<lambda>n r. Inr \<lparr>resp_headers = [],
                      resp_json = Some (PDict [(''ISBN:123'', PDict ?ed)]),
                      resp_url = req_url r\<rparr>"
  let ?w = "\<lparr>sent = [], gaveup = []\<rparr>"
  let ?w' = "\<lparr>sent = [http_get False
                      ''http://localhost/api/books?bibkeys=ISBN:123&format=json&jscmd=data''],
            gaveup = []\<rparr>"
  let ?q = "http_get False (''http://localhost'' @ ''/api/books?bibkeys=ISBN:'' @ ''123''
                              @ ''&format=json&jscmd=data'')"
  have f: "on_exception (send ?net ?q) ?w = (Inr ?resp, ?w')"
    using on_exception_first_ok [of ?net ?w ?q] by (simp add: http_get_def)
  have o: "ebind (py_iter (kwarg ?ed ''authors'' (PList []))) author_objects
             = Inr [PAuthor (PStr ''A'') (PStr ''OL2A'')]"
    by (simp add: kwarg_def extract_example_authors del: extract_olid_from_url.simps)
  from get_book_by_isbn_marshal
         [of ?net "''http://localhost''" "''123''" ?w ?resp ?w' "[(''ISBN:123'', PDict ?ed)]"
             ?ed "''/books/OL1M''" "[]" "[PAuthor (PStr ''A'') (PStr ''OL2A'')]"] f o
  obtain ol kw where
    "extract_olid_from_url (PStr ''/books/OL1M'') ''books'' = Inr ol"
    "get_book_by_isbn ?net ''http://localhost'' ''123'' ?w = (Inr (Some (Book kw)), ?w')"
    "map_of kw ''identifiers'' = Some (PDict (AList.update ''olid'' (PList [ol]) []))"
    "map_of kw ''authors'' = Some (PList [PAuthor (PStr ''A'') (PStr ''OL2A'')])"
    "map_of kw ''key'' = None"
    "\<forall>f. f \<notin> {''key'', ''identifiers'', ''authors''} \<longrightarrow> map_of kw f = map_of ?ed f"
    by auto
  moreover from this(6) have "map_of kw ''title'' = Some (PStr ''X'')"
    by (auto dest: spec [of _ "''title''"])
  ultimately show ?thesis
    using extract_example_books by (intro exI [of _ kw]) simp
qed






section \<open>Identifier extraction\<close>

text \<open>
  Claim C6. A resource-type label is a path segment such as \<^verbatim>\<open>books\<close>,
  \<^verbatim>\<open>authors\<close> or \<^verbatim>\<open>works\<close>, the labels of the docstring and of every call: a
  string without a special character of regular expressions. For such a label and every
  string the extractor raises nothing; it returns \<^verbatim>\<open>None\<close> exactly when the string
  has no occurrence of \<^verbatim>\<open>/<type>/\<close> followed by an alphanumeric character; and it
  returns \<open>g\<close> exactly when \<open>g\<close> is the longest run of alphanumeric characters
  right after the leftmost such occurrence.
\<close>

theorem extract_olid_plain_label:
  assumes "list_all (\<lambda>c. \<not> re_special c) t"
  shows "(\<exists>r. extract_olid_from_url (PStr url) t = Inr r)
       \<and> (extract_olid_from_url (PStr url) t = Inr PNone
            \<longleftrightarrow> \<not> (\<exists>pre c rest. url = pre @ CHR ''/'' # t @ CHR ''/'' # c # rest \<and> alnum c))
       \<and> (extract_olid_from_url (PStr url) t = Inr (PStr g)
            \<longleftrightarrow> (\<exists>pre rest. url = pre @ CHR ''/'' # t @ CHR ''/'' # g @ rest
                    \<and> g \<noteq> [] \<and> list_all alnum g \<and> (rest = [] \<or> \<not> alnum (hd rest))
                    \<and> \<not> (\<exists>pre' c rest'. url = pre' @ CHR ''/'' # t @ CHR ''/'' # c # rest'
                              \<and> alnum c \<and> length pre' < length pre)))"
proof (intro conjI)
  show "\<exists>r. extract_olid_from_url (PStr url) t = Inr r"
    by (simp only: extract_plain [OF assms]) (simp split: option.split)
next
  have "extract_olid_from_url (PStr url) t = Inr PNone \<longleftrightarrow> re_search (map Lit t) url = None"
    by (simp only: extract_plain [OF assms]) (simp split: option.split)
  also have "\<dots> \<longleftrightarrow> (\<forall>pre s. url = pre @ s \<longrightarrow> match_here (map Lit t) s = None)"
    by (rule re_search_None)
  also have "\<dots> \<longleftrightarrow> \<not> (\<exists>pre c rest. url = pre @ CHR ''/'' # t @ CHR ''/'' # c # rest \<and> alnum c)"
    by (simp add: match_here_None) blast
  finally show "extract_olid_from_url (PStr url) t = Inr PNone
            \<longleftrightarrow> \<not> (\<exists>pre c rest. url = pre @ CHR ''/'' # t @ CHR ''/'' # c # rest \<and> alnum c)" .
next
  have "extract_olid_from_url (PStr url) t = Inr (PStr g) \<longleftrightarrow> re_search (map Lit t) url = Some g"
    by (simp only: extract_plain [OF assms]) (simp split: option.split)
  also have "\<dots> \<longleftrightarrow> (\<exists>pre s. url = pre @ s \<and> match_here (map Lit t) s = Some g
        \<and> (\<forall>pre' s'. url = pre' @ s' \<and> length pre' < length pre
              \<longrightarrow> match_here (map Lit t) s' = None))"
    by (rule re_search_Some)
  also have "\<dots> \<longleftrightarrow> (\<exists>pre rest. url = pre @ CHR ''/'' # t @ CHR ''/'' # g @ rest
                    \<and> g \<noteq> [] \<and> list_all alnum g \<and> (rest = [] \<or> \<not> alnum (hd rest))
                    \<and> \<not> (\<exists>pre' c rest'. url = pre' @ CHR ''/'' # t @ CHR ''/'' # c # rest'
                              \<and> alnum c \<and> length pre' < length pre))"
    (is "?L \<longleftrightarrow> ?R")
  proof
    assume ?L
    then obtain pre s where p: "url = pre @ s" "match_here (map Lit t) s = Some g"
      "\<forall>pre' s'. url = pre' @ s' \<and> length pre' < length pre
              \<longrightarrow> match_here (map Lit t) s' = None"
      by blast
    from p(2) obtain rest where r: "s = CHR ''/'' # t @ CHR ''/'' # g @ rest" "g \<noteq> []"
      "list_all alnum g" "rest = [] \<or> \<not> alnum (hd rest)"
      using match_here_Some [of t s g] by blast
    have "\<not> (\<exists>pre' c rest'. url = pre' @ CHR ''/'' # t @ CHR ''/'' # c # rest'
                              \<and> alnum c \<and> length pre' < length pre)"
    proof
      assume "\<exists>pre' c rest'. url = pre' @ CHR ''/'' # t @ CHR ''/'' # c # rest'
                              \<and> alnum c \<and> length pre' < length pre"
      then obtain pre' c rest' where q: "url = pre' @ CHR ''/'' # t @ CHR ''/'' # c # rest'"
        "alnum c" "length pre' < length pre"
        by blast
      with p(3) have "match_here (map Lit t) (CHR ''/'' # t @ CHR ''/'' # c # rest') = None"
        by blast
      with q(2) show False by (simp add: match_here_None)
    qed
    with p(1) r show ?R by blast
  next
    assume ?R
    then obtain pre rest where r: "url = pre @ CHR ''/'' # t @ CHR ''/'' # g @ rest" "g \<noteq> []"
      "list_all alnum g" "rest = [] \<or> \<not> alnum (hd rest)"
      "\<not> (\<exists>pre' c rest'. url = pre' @ CHR ''/'' # t @ CHR ''/'' # c # rest'
                              \<and> alnum c \<and> length pre' < length pre)"
      by blast
    let ?s = "CHR ''/'' # t @ CHR ''/'' # g @ rest"
    have m: "match_here (map Lit t) ?s = Some g"
      using r(2,3,4) match_here_Some [of t ?s g] by blast
    have "\<forall>pre' s'. url = pre' @ s' \<and> length pre' < length pre
              \<longrightarrow> match_here (map Lit t) s' = None"
    proof (intro allI impI)
      fix pre' s'
      assume a: "url = pre' @ s' \<and> length pre' < length pre"
      show "match_here (map Lit t) s' = None"
      proof (rule ccontr)
        assume "match_here (map Lit t) s' \<noteq> None"
        then have "\<exists>c rest'. s' = CHR ''/'' # t @ CHR ''/'' # c # rest' \<and> alnum c"
          by (simp add: match_here_None)
        then obtain c rest' where "s' = CHR ''/'' # t @ CHR ''/'' # c # rest'" "alnum c"
          by blast
        with a r(5) show False by blast
      qed
    qed
    with r(1) m show ?L by blast
  qed
  finally show "extract_olid_from_url (PStr url) t = Inr (PStr g)
            \<longleftrightarrow> (\<exists>pre rest. url = pre @ CHR ''/'' # t @ CHR ''/'' # g @ rest
                    \<and> g \<noteq> [] \<and> list_all alnum g \<and> (rest = [] \<or> \<not> alnum (hd rest))
                    \<and> \<not> (\<exists>pre' c rest'. url = pre' @ CHR ''/'' # t @ CHR ''/'' # c # rest'
                              \<and> alnum c \<and> length pre' < length pre))" .
qed


theorem extract_olid_plain_label_witness:
  "extract_olid_from_url (PStr ''https://openlibrary.org/books/OL25943366M'') ''books''
     = Inr (PStr ''OL25943366M'')
   \<and> (\<exists>pre rest. ''https://openlibrary.org/books/OL25943366M''
                    = pre @ CHR ''/'' # ''books'' @ CHR ''/'' # ''OL25943366M'' @ rest)
   \<and> extract_olid_from_url (PStr ''https://openlibrary.org/works/OL1W'') ''books'' = Inr PNone
   \<and> \<not> (\<exists>pre c rest. ''https://openlibrary.org/works/OL1W''
                         = pre @ CHR ''/'' # ''books'' @ CHR ''/'' # c # rest \<and> alnum c)"
proof -
  have p: "list_all (\<lambda>c. \<not> re_special c) ''books''"
    by (simp add: re_special_def)
  have a: "extract_olid_from_url (PStr ''https://openlibrary.org/books/OL25943366M'') ''books''
     = Inr (PStr ''OL25943366M'')"
    by (simp add: re_special_def match_here_def alnum_def)
  have b: "extract_olid_from_url (PStr ''https://openlibrary.org/works/OL1W'') ''books'' = Inr PNone"
    by (simp add: re_special_def match_here_def alnum_def)
  from extract_olid_plain_label
         [OF p, of "''https://openlibrary.org/books/OL25943366M''" "''OL25943366M''"] a
  have "\<exists>pre rest. ''https://openlibrary.org/books/OL25943366M''
                    = pre @ CHR ''/'' # ''books'' @ CHR ''/'' # ''OL25943366M'' @ rest"
    by blast
  moreover
  from extract_olid_plain_label [OF p, of "''https://openlibrary.org/works/OL1W''"] b
  have "\<not> (\<exists>pre c rest. ''https://openlibrary.org/works/OL1W''
                         = pre @ CHR ''/'' # ''books'' @ CHR ''/'' # c # rest \<and> alnum c)"
    by blast
  ultimately show ?thesis using a b by blast
qed


end
